theory Spec2Isabelle
  imports Main
begin

section \<open>Values, thrown values and the surroundings of the action\<close>

text \<open>
  The action is one TypeScript file, \<^verbatim>\<open>src/index.ts\<close>: a straight pipeline of calls
  into the GitHub toolkit (\<^verbatim>\<open>@actions/core\<close>, \<^verbatim>\<open>@actions/cache\<close>, \<^verbatim>\<open>@actions/exec\<close>,
  \<^verbatim>\<open>@actions/glob\<close>) and Node (\<^verbatim>\<open>fs\<close>, \<^verbatim>\<open>os\<close>, \<^verbatim>\<open>path\<close>, \<^verbatim>\<open>process\<close>).
  A JavaScript string is a \<open>string\<close>; a string is truthy when it is not empty.
  Whatever a call may throw is a value of \<open>thrown\<close>: \<open>Error m\<close> stands for every
  object that is \<^verbatim>\<open>instanceof Error\<close> (with its \<^verbatim>\<open>message\<close>), \<open>NonError v\<close> for every
  other thrown value. A call that may throw returns \<open>thrown + 'a\<close>, \<open>Inl\<close> the throw.
\<close>

datatype thrown = Error string | NonError string

text \<open>What \<^verbatim>\<open>core.saveState\<close> and \<^verbatim>\<open>core.setOutput\<close> are handed: a boolean or a string.\<close>

datatype cmdval = VBool bool | VStr string

text \<open>\<^verbatim>\<open>exec.ExecOutput\<close>.\<close>

record ExecOutput =
  exitCode :: int
  stdout :: string
  stderr :: string

text \<open>
  Everything the file's own code does not decide: the inputs of the step as they were
  given (\<open>rawInput\<close>, the empty string for an input that is not given), the facts of
  the machine, and what each toolkit or Node call answers. Each answer is a field, so a
  theorem holds for whatever the surroundings answer. \<open>miseDir\<close> is the result of the
  helper of \<^verbatim>\<open>./utils\<close>, whose source is not part of the file; \<open>JSON_parse\<close> answers
  with the entries of the parsed object in the order of \<^verbatim>\<open>Object.entries\<close>, its values
  strings as the type annotation of \<^verbatim>\<open>envVars\<close> says. \<open>childProcess\<close> is what a
  subprocess does when it is run with a command, arguments and a working directory: it
  cannot be started (a throw), or it ends with an exit code, its output and its error
  output. \<open>toolPath\<close> is the path the command resolves to; the toolkit prints it in its
  error message.
\<close>

record platform =
  rawInput :: "string \<Rightarrow> string"
  getBooleanInput :: "string \<Rightarrow> thrown + bool"
  process_platform :: string
  os_arch :: string
  process_cwd :: string
  path_delimiter :: char
  path_join :: "string \<Rightarrow> string \<Rightarrow> string"
  miseDir :: string
  hashFiles :: "string \<Rightarrow> thrown + string"
  restoreCache :: "string list \<Rightarrow> string \<Rightarrow> thrown + string option"
  childProcess :: "string \<Rightarrow> string list \<Rightarrow> string \<Rightarrow> thrown + ExecOutput"
  toolPath :: "string \<Rightarrow> string"
  mkdir :: "string \<Rightarrow> thrown option"
  fs_writeFile :: "string \<Rightarrow> string \<Rightarrow> thrown option"
  JSON_parse :: "string \<Rightarrow> thrown + (string \<times> string) list"

text \<open>Every call that leaves the file, in the order the run makes them.\<close>

datatype event =
    StartGroup string
  | EndGroup
  | Info string
  | ExportVariable string string
  | AddPath string
  | SaveState string cmdval
  | SetOutput string cmdval
  | SetFailed string
  | HashFiles string
  | RestoreCache "string list" string
  | Exec string "string list"
  | GetExecOutput string "string list" string
  | Mkdir string
  | WriteFile string string string

text \<open>
  What the run changes: the process environment (\<^verbatim>\<open>process.env\<close>, \<^verbatim>\<open>PATH\<close> one of its
  keys, the names compared letter by letter as on Linux and macOS), the state saved for
  the post step, the outputs of the step, the files written (body and encoding), the
  failure message, and the trace of calls.
\<close>

record world =
  env :: "string \<rightharpoonup> string"
  saved_state :: "string \<rightharpoonup> cmdval"
  outputs :: "string \<rightharpoonup> cmdval"
  files :: "string \<rightharpoonup> string \<times> string"
  failed :: "string option"
  trace :: "event list"

type_synonym 'a action = "world \<Rightarrow> (thrown + 'a) \<times> world"

text \<open>\<^verbatim>\<open>await a; b\<close>: when \<open>a\<close> throws, \<open>b\<close> does not run.\<close>

definition bindE :: "'a action \<Rightarrow> ('a \<Rightarrow> 'b action) \<Rightarrow> 'b action" where
  "bindE m f w = (case m w of (Inl e, w') \<Rightarrow> (Inl e, w') | (Inr x, w') \<Rightarrow> f x w')"

definition thenE :: "unit action \<Rightarrow> 'b action \<Rightarrow> 'b action" where
  "thenE m k = bindE m (\<lambda>_. k)"

definition liftE :: "(world \<Rightarrow> world) \<Rightarrow> unit action" where
  "liftE f w = (Inr (), f w)"

definition throwE :: "thrown \<Rightarrow> 'a action" where
  "throwE e w = (Inl e, w)"

text \<open>A read that changes nothing (an input, a parse) and may throw.\<close>

definition ofResult :: "thrown + 'a \<Rightarrow> 'a action" where
  "ofResult r w = (r, w)"

definition emit :: "event \<Rightarrow> world \<Rightarrow> world" where
  "emit e w = w\<lparr>trace := trace w @ [e]\<rparr>"

text \<open>A call that leaves the file: it is recorded, then answers or throws.\<close>

definition call :: "event \<Rightarrow> thrown + 'a \<Rightarrow> 'a action" where
  "call ev r w = (r, emit ev w)"

section \<open>The toolkit calls that change the world\<close>

definition startGroup :: "string \<Rightarrow> world \<Rightarrow> world" where
  "startGroup name w = emit (StartGroup name) w"

definition endGroup :: "world \<Rightarrow> world" where
  "endGroup w = emit EndGroup w"

definition info :: "string \<Rightarrow> world \<Rightarrow> world" where
  "info msg w = emit (Info msg) w"

text \<open>\<^verbatim>\<open>core.group(name, fn)\<close>: the group is closed whether \<open>fn\<close> returns or throws.\<close>

definition group :: "string \<Rightarrow> 'a action \<Rightarrow> 'a action" where
  "group name fn w = (case fn (startGroup name w) of (r, w') \<Rightarrow> (r, endGroup w'))"

text \<open>
  \<^verbatim>\<open>core.getInput(name)\<close>, called with no options: the input as it was given, with the
  white space at both ends removed by \<^verbatim>\<open>String.prototype.trim\<close>. A character stands
  for a code unit below 256; the white space among these is the tab, the line feed, the
  vertical tab, the form feed, the carriage return, the space and the no-break space.
\<close>

definition isWhiteSpace :: "char \<Rightarrow> bool" where
  "isWhiteSpace c =
     (c \<in> {CHR 0x09, CHR 0x0A, CHR 0x0B, CHR 0x0C, CHR 0x0D, CHR 0x20, CHR 0xA0})"

definition js_trim :: "string \<Rightarrow> string" where
  "js_trim s = rev (dropWhile isWhiteSpace (rev (dropWhile isWhiteSpace s)))"

definition getInput :: "platform \<Rightarrow> string \<Rightarrow> string" where
  "getInput p name = js_trim (rawInput p name)"

text \<open>
  \<^verbatim>\<open>core.exportVariable(k, v)\<close> assigns \<^verbatim>\<open>process.env[k] = v\<close>. The process keeps the
  assignment only for a name it can hold: one that is not empty and has no \<^verbatim>\<open>=\<close> in
  it. For any other name the assignment is dropped without an error.
\<close>

definition validName :: "string \<Rightarrow> bool" where
  "validName k = (k \<noteq> [] \<and> CHR ''='' \<notin> set k)"

definition exportVariable :: "string \<Rightarrow> string \<Rightarrow> world \<Rightarrow> world" where
  "exportVariable k v w =
     emit (ExportVariable k v) (if validName k then w\<lparr>env := (env w)(k \<mapsto> v)\<rparr> else w)"

text \<open>
  \<^verbatim>\<open>core.addPath(p)\<close> assigns
  \<^verbatim>\<open>process.env['PATH'] = `${p}${path.delimiter}${process.env['PATH']}`\<close>:
  the new entry goes in front. A template literal prints a missing value as
  \<^verbatim>\<open>undefined\<close>.
\<close>

definition current_PATH :: "world \<Rightarrow> string" where
  "current_PATH w = (case env w ''PATH'' of None \<Rightarrow> ''undefined'' | Some s \<Rightarrow> s)"

definition addPath :: "platform \<Rightarrow> string \<Rightarrow> world \<Rightarrow> world" where
  "addPath p inputPath w =
     emit (AddPath inputPath)
       (w\<lparr>env := (env w)(''PATH'' \<mapsto> inputPath @ [path_delimiter p] @ current_PATH w)\<rparr>)"

definition saveState :: "string \<Rightarrow> cmdval \<Rightarrow> world \<Rightarrow> world" where
  "saveState name v w = emit (SaveState name v) (w\<lparr>saved_state := (saved_state w)(name \<mapsto> v)\<rparr>)"

definition setOutput :: "string \<Rightarrow> cmdval \<Rightarrow> world \<Rightarrow> world" where
  "setOutput name v w = emit (SetOutput name v) (w\<lparr>outputs := (outputs w)(name \<mapsto> v)\<rparr>)"

definition setFailed :: "string \<Rightarrow> world \<Rightarrow> world" where
  "setFailed msg w = emit (SetFailed msg) (w\<lparr>failed := Some msg\<rparr>)"

text \<open>
  \<^verbatim>\<open>exec.exec\<close> and \<^verbatim>\<open>exec.getExecOutput\<close> of \<^verbatim>\<open>@actions/exec\<close>. The file passes no
  \<^verbatim>\<open>ignoreReturnCode\<close> option to either, and the toolkit's default is to fail on an exit
  code other than zero: the promise is rejected with
  \<^verbatim>\<open>new Error(`The process '${toolPath}' failed with exit code ${exitCode}`)\<close>.
  So both answer only for the exit code zero. \<^verbatim>\<open>exec.exec\<close> runs in the current
  directory and answers the exit code, \<^verbatim>\<open>exec.getExecOutput\<close> runs in the directory it
  is given and answers the exit code with the captured output.
\<close>

function decimal :: "nat \<Rightarrow> string" where
  "decimal n =
     (if n < 10 then [''0123456789'' ! n]
      else decimal (n div 10) @ [''0123456789'' ! (n mod 10)])"
  by pat_completeness auto
termination
  by (relation "measure id") auto

text \<open>A whole number in a template literal.\<close>

definition numberToString :: "int \<Rightarrow> string" where
  "numberToString i = (if i < 0 then ''-'' @ decimal (nat (- i)) else decimal (nat i))"

definition exitError :: "platform \<Rightarrow> string \<Rightarrow> int \<Rightarrow> thrown" where
  "exitError p tool code =
     Error (''The process '' @ [CHR 39] @ toolPath p tool @ [CHR 39]
            @ '' failed with exit code '' @ numberToString code)"

definition exec :: "platform \<Rightarrow> string \<Rightarrow> string list \<Rightarrow> thrown + int" where
  "exec p tool args =
     (case childProcess p tool args (process_cwd p) of
        Inl e \<Rightarrow> Inl e
      | Inr out \<Rightarrow> if exitCode out \<noteq> 0 then Inl (exitError p tool (exitCode out))
                  else Inr (exitCode out))"

definition getExecOutput ::
    "platform \<Rightarrow> string \<Rightarrow> string list \<Rightarrow> string \<Rightarrow> thrown + ExecOutput" where
  "getExecOutput p tool args cwd =
     (case childProcess p tool args cwd of
        Inl e \<Rightarrow> Inl e
      | Inr out \<Rightarrow> if exitCode out \<noteq> 0 then Inl (exitError p tool (exitCode out))
                  else Inr out)"

text \<open>\<^verbatim>\<open>String.prototype.split\<close> with a separator of one character: no segment is dropped,
  and the empty string has the one segment \<^verbatim>\<open>''\<close>.\<close>

fun js_split :: "char \<Rightarrow> string \<Rightarrow> string list" where
  "js_split d [] = [[]]"
| "js_split d (c # cs) =
     (if c = d then [] # js_split d cs
      else (case js_split d cs of [] \<Rightarrow> [[c]] | s # ss \<Rightarrow> (c # s) # ss))"

text \<open>\<^verbatim>\<open>Array.prototype.join\<close>.\<close>

fun js_join :: "string \<Rightarrow> string list \<Rightarrow> string" where
  "js_join sep [] = []"
| "js_join sep [x] = x"
| "js_join sep (x # y # ys) = x @ sep @ js_join sep (y # ys)"

section \<open>The functions of index.ts\<close>

definition setEnv :: "string \<Rightarrow> string \<Rightarrow> world \<Rightarrow> world" where
  "setEnv k v w = exportVariable k v (info (''Setting '' @ k @ ''='' @ v) w)"

text \<open>The truth value of a \<^verbatim>\<open>string | undefined\<close>: false when the value is missing and
  when it is the empty string.\<close>

definition truthy :: "string option \<Rightarrow> bool" where
  "truthy v = (case v of None \<Rightarrow> False | Some s \<Rightarrow> s \<noteq> [])"

definition setEnvIfUnset :: "string \<Rightarrow> string \<Rightarrow> world \<Rightarrow> world" where
  "setEnvIfUnset k v w = (if \<not> truthy (env w k) then setEnv k v w else w)"

definition getExperimental :: "platform \<Rightarrow> bool" where
  "getExperimental p = (if getInput p ''experimental'' = ''true'' then True else False)"

definition setEnvVarsPreInstall :: "platform \<Rightarrow> world \<Rightarrow> world" where
  "setEnvVarsPreInstall p w =
     (let w1 = startGroup ''Setting env vars for Mise'' w;
          w2 = setEnvIfUnset ''MISE_TRUSTED_CONFIG_PATHS'' (process_cwd p) w1;
          w3 = setEnvIfUnset ''MISE_YES'' ''1'' w2
      in setEnvIfUnset ''MISE_EXPERIMENTAL'' (if getExperimental p then ''1'' else ''0'') w3)"

definition getOS :: "platform \<Rightarrow> string" where
  "getOS p = (if process_platform p = ''darwin'' then ''macos'' else process_platform p)"

text \<open>The subprocess wrapper: the working directory is \<^verbatim>\<open>install_dir\<close>, or the current
  directory when that input is empty.\<close>

definition mise :: "platform \<Rightarrow> string list \<Rightarrow> ExecOutput action" where
  "mise p args =
     group (''Running mise '' @ js_join '' '' args)
       (\<lambda>w. let cwd = (if getInput p ''install_dir'' \<noteq> [] then getInput p ''install_dir''
                        else process_cwd p)
            in (getExecOutput p ''mise'' args cwd, emit (GetExecOutput ''mise'' args cwd) w))"

definition testMise :: "platform \<Rightarrow> ExecOutput action" where
  "testMise p = mise p [''--version'']"

definition miseInstall :: "platform \<Rightarrow> ExecOutput action" where
  "miseInstall p = mise p [''install'']"

definition miseEnv :: "platform \<Rightarrow> ExecOutput action" where
  "miseEnv p = mise p [''env'', ''--json'']"

definition writeFile :: "platform \<Rightarrow> string \<Rightarrow> string \<Rightarrow> unit action" where
  "writeFile p path body =
     group (''Writing '' @ path)
       (\<lambda>w. let w1 = emit (WriteFile path body ''utf8'') (info (''Body:'' @ [CHR 10] @ body) w)
            in (case fs_writeFile p path body of
                  Some e \<Rightarrow> (Inl e, w1)
                | None \<Rightarrow> (Inr (), w1\<lparr>files := (files w1)(path \<mapsto> (body, ''utf8''))\<rparr>)))"

definition setToolVersions :: "platform \<Rightarrow> unit action" where
  "setToolVersions p =
     (let toolVersions = getInput p ''tool_versions''
      in if toolVersions \<noteq> [] then writeFile p ''.tool-versions'' toolVersions
         else liftE id)"

definition setMiseToml :: "platform \<Rightarrow> unit action" where
  "setMiseToml p =
     (let toml = getInput p ''mise_toml''
      in if toml \<noteq> [] then writeFile p ''.mise.toml'' toml
         else liftE id)"

text \<open>The inner loop of \<^verbatim>\<open>setEnvVars\<close>, over the segments of the \<^verbatim>\<open>PATH\<close> value.\<close>

fun addPathElements :: "platform \<Rightarrow> string list \<Rightarrow> world \<Rightarrow> world" where
  "addPathElements p [] w = w"
| "addPathElements p (pathElement # rest) w =
     addPathElements p rest
       (addPath p pathElement (info (''Adding '' @ pathElement @ '' to PATH'') w))"

text \<open>The outer loop of \<^verbatim>\<open>setEnvVars\<close>, over \<^verbatim>\<open>Object.entries(envVars)\<close>.\<close>

fun exportEntries :: "platform \<Rightarrow> (string \<times> string) list \<Rightarrow> world \<Rightarrow> world" where
  "exportEntries p [] w = w"
| "exportEntries p ((key, val) # rest) w =
     exportEntries p rest
       (if key \<noteq> ''PATH'' then setEnv key val w
        else addPathElements p (js_split (path_delimiter p) val) w)"

definition setEnvVars :: "platform \<Rightarrow> unit action" where
  "setEnvVars p =
     bindE (miseEnv p) (\<lambda>envOutput.
     thenE (liftE (startGroup ''Setting env vars''))
       (if exitCode envOutput = 0
        then bindE (ofResult (JSON_parse p (stdout envOutput))) (\<lambda>envVars.
             liftE (exportEntries p envVars))
        else throwE (Error (''Failed to run mise env: '' @ stderr envOutput))))"

text \<open>The glob patterns handed to \<^verbatim>\<open>glob.hashFiles\<close>, joined by a newline.\<close>

definition configPatterns :: string where
  "configPatterns =
     js_join [CHR 10]
       [''**/.config/mise/config.toml'', ''**/.mise.*.toml'', ''**/.mise.toml'',
        ''**/.mise/config.toml'', ''**/.tool-versions'']"

text \<open>The key of line 76, from the prefix input (\<^verbatim>\<open>mise-v0\<close> when it is empty), the
  operating system, the architecture and the hash of the configuration files.\<close>

definition primaryKey :: "platform \<Rightarrow> string \<Rightarrow> string" where
  "primaryKey p fileHash =
     (let prefix = (if getInput p ''cache_key_prefix'' \<noteq> [] then getInput p ''cache_key_prefix''
                    else ''mise-v0'')
      in prefix @ ''-'' @ getOS p @ ''-'' @ os_arch p @ ''-'' @ fileHash)"

text \<open>
  \<^verbatim>\<open>getBooleanInput\<close> answers a boolean or throws, so the \<^verbatim>\<open>?? true\<close> after it never
  applies. \<^verbatim>\<open>Boolean(cacheKey)\<close> and \<^verbatim>\<open>!cacheKey\<close> are \<open>truthy\<close> and its negation.
\<close>

definition restoreMiseCache :: "platform \<Rightarrow> unit action" where
  "restoreMiseCache p =
     thenE (liftE (startGroup ''Restoring mise cache''))
     (let cachePath = miseDir p in
      bindE (call (HashFiles configPatterns) (hashFiles p configPatterns)) (\<lambda>fileHash.
      let primaryKey = primaryKey p fileHash in
      bindE (ofResult (getBooleanInput p ''cache_save'')) (\<lambda>save.
      thenE (liftE (saveState ''CACHE'' (VBool save)))
      (thenE (liftE (saveState ''PRIMARY_KEY'' (VStr primaryKey)))
      (thenE (liftE (saveState ''MISE_DIR'' (VStr cachePath)))
      (bindE (call (RestoreCache [cachePath] primaryKey) (restoreCache p [cachePath] primaryKey))
        (\<lambda>cacheKey.
      thenE (liftE (setOutput ''cache-hit'' (VBool (truthy cacheKey))))
      (case cacheKey of
         None \<Rightarrow> liftE (info (''mise cache not found for '' @ primaryKey))
       | Some k \<Rightarrow>
           if \<not> truthy cacheKey then liftE (info (''mise cache not found for '' @ primaryKey))
           else thenE (liftE (saveState ''CACHE_KEY'' (VStr k)))
                  (liftE (info (''mise cache restored from key: '' @ k)))))))))))"

definition setupMise :: "platform \<Rightarrow> string \<Rightarrow> unit action" where
  "setupMise p version =
     thenE (liftE (startGroup (if version \<noteq> [] then ''Setup mise@'' @ version else ''Setup mise'')))
     (let miseBinDir = path_join p (miseDir p) ''bin'';
          url = (if version \<noteq> []
                 then ''https://mise.jdx.dev/v'' @ version @ ''/mise-v'' @ version @ ''-''
                        @ getOS p @ ''-'' @ os_arch p
                 else ''https://mise.jdx.dev/mise-latest-'' @ getOS p @ ''-'' @ os_arch p);
          curlArgs = [''-fsSL'', url, ''--output'', path_join p miseBinDir ''mise''];
          chmodArgs = [''+x'', path_join p miseBinDir ''mise'']
      in
      thenE (call (Mkdir miseBinDir) (case mkdir p miseBinDir of Some e \<Rightarrow> Inl e | None \<Rightarrow> Inr ()))
      (bindE (call (Exec ''curl'' curlArgs) (exec p ''curl'' curlArgs)) (\<lambda>_.
       bindE (call (Exec ''chmod'' chmodArgs) (exec p ''chmod'' chmodArgs)) (\<lambda>_.
       liftE (addPath p miseBinDir)))))"

text \<open>The \<^verbatim>\<open>try\<close> block of \<^verbatim>\<open>run\<close>.\<close>

definition body :: "platform \<Rightarrow> unit action" where
  "body p =
     thenE (setToolVersions p)
     (thenE (setMiseToml p)
     (thenE (bindE (ofResult (getBooleanInput p ''cache'')) (\<lambda>c.
               if c then restoreMiseCache p
               else liftE (setOutput ''cache-hit'' (VBool False))))
     (let version = getInput p ''version'' in
      thenE (setupMise p version)
     (thenE (liftE (setEnvVarsPreInstall p))
     (thenE (bindE (testMise p) (\<lambda>_. liftE id))
     (thenE (bindE (ofResult (getBooleanInput p ''install'')) (\<lambda>i.
               if i then bindE (miseInstall p) (\<lambda>_. liftE id) else liftE id))
     (setEnvVars p)))))))"

text \<open>The \<^verbatim>\<open>catch\<close> of \<^verbatim>\<open>run\<close>: an \<^verbatim>\<open>Error\<close> becomes the failure message, anything
  else is thrown again.\<close>

definition run :: "platform \<Rightarrow> unit action" where
  "run p w =
     (case body p w of
        (Inl (Error m), w') \<Rightarrow> (Inr (), setFailed m w')
      | (Inl (NonError v), w') \<Rightarrow> (Inl (NonError v), w')
      | (Inr u, w') \<Rightarrow> (Inr u, w'))"

section \<open>The run as a list of stages\<close>

text \<open>The statements of the \<^verbatim>\<open>try\<close> block, one stage each, and the run of a list of
  stages: the first throw ends it.\<close>

fun runAll :: "unit action list \<Rightarrow> unit action" where
  "runAll [] = liftE id"
| "runAll (s # ss) = thenE s (runAll ss)"

definition cacheStage :: "platform \<Rightarrow> unit action" where
  "cacheStage p =
     bindE (ofResult (getBooleanInput p ''cache'')) (\<lambda>c.
       if c then restoreMiseCache p else liftE (setOutput ''cache-hit'' (VBool False)))"

definition installStage :: "platform \<Rightarrow> unit action" where
  "installStage p =
     bindE (ofResult (getBooleanInput p ''install'')) (\<lambda>i.
       if i then bindE (miseInstall p) (\<lambda>_. liftE id) else liftE id)"

definition pipeline :: "platform \<Rightarrow> unit action list" where
  "pipeline p =
     [setToolVersions p, setMiseToml p, cacheStage p, setupMise p (getInput p ''version''),
      liftE (setEnvVarsPreInstall p), bindE (testMise p) (\<lambda>_. liftE id), installStage p,
      setEnvVars p]"

text \<open>The calls of a trace that restore a cache, that export a variable and that add to
  \<^verbatim>\<open>PATH\<close>, and the names of the states saved.\<close>

fun isRestoreCache :: "event \<Rightarrow> bool" where
  "isRestoreCache (RestoreCache paths key) = True"
| "isRestoreCache _ = False"

fun isExportVariable :: "event \<Rightarrow> bool" where
  "isExportVariable (ExportVariable k v) = True"
| "isExportVariable _ = False"

fun isAddPath :: "event \<Rightarrow> bool" where
  "isAddPath (AddPath seg) = True"
| "isAddPath _ = False"

fun savedName :: "event \<Rightarrow> string option" where
  "savedName (SaveState name v) = Some name"
| "savedName _ = None"

text \<open>The calls a stage added to the trace.\<close>

definition added :: "world \<Rightarrow> world \<Rightarrow> event list" where
  "added w w' = drop (length (trace w)) (trace w')"

section \<open>A concrete runner\<close>

text \<open>A Linux runner on which every call succeeds, the cache misses, and the tool's
  environment dump is \<^verbatim>\<open>{"FOO":"bar","PATH":"/a:/b"}\<close>.\<close>

definition linux_runner :: platform where
  "linux_runner =
     \<lparr>rawInput = (\<lambda>name. []),
      getBooleanInput = (\<lambda>name. if name = ''cache_save'' then Inr True else Inr False),
      process_platform = ''linux'',
      os_arch = ''x64'',
      process_cwd = ''/work'',
      path_delimiter = CHR '':'',
      path_join = (\<lambda>a b. a @ ''/'' @ b),
      miseDir = ''/home/runner/.local/share/mise'',
      hashFiles = (\<lambda>patterns. Inr ''0123abcd''),
      restoreCache = (\<lambda>paths key. Inr None),
      childProcess = (\<lambda>cmd args cwd.
         Inr \<lparr>exitCode = 0, stdout = ''{\"FOO\":\"bar\",\"PATH\":\"/a:/b\"}'', stderr = []\<rparr>),
      toolPath = (\<lambda>cmd. ''/usr/bin/'' @ cmd),
      mkdir = (\<lambda>dir. None),
      fs_writeFile = (\<lambda>path body. None),
      JSON_parse = (\<lambda>text.
         if text = ''{\"FOO\":\"bar\",\"PATH\":\"/a:/b\"}''
         then Inr [(''FOO'', ''bar''), (''PATH'', ''/a:/b'')]
         else Inl (Error ''Unexpected end of JSON input''))\<rparr>"

definition fresh :: world where
  "fresh = \<lparr>env = Map.empty, saved_state = Map.empty, outputs = Map.empty,
            files = Map.empty, failed = None, trace = []\<rparr>"

text \<open>The world at the moment the restore has been asked for: the hash is \<open>h\<close>, the
  \<^verbatim>\<open>cache_save\<close> input is \<open>save\<close>.\<close>

definition beforeRestore :: "platform \<Rightarrow> string \<Rightarrow> bool \<Rightarrow> world \<Rightarrow> world" where
  "beforeRestore p h save w =
     emit (RestoreCache [miseDir p] (primaryKey p h))
       (saveState ''MISE_DIR'' (VStr (miseDir p))
         (saveState ''PRIMARY_KEY'' (VStr (primaryKey p h))
           (saveState ''CACHE'' (VBool save)
             (emit (HashFiles configPatterns) (startGroup ''Restoring mise cache'' w)))))"


definition hit_runner :: platform where
  "hit_runner = linux_runner\<lparr>restoreCache := (\<lambda>paths key. Inr (Some key))\<rparr>"

definition broken_cache_runner :: platform where
  "broken_cache_runner =
     linux_runner\<lparr>getBooleanInput := (\<lambda>name. Inr True),
       restoreCache := (\<lambda>paths key. Inl (Error ''cache service unavailable''))\<rparr>"

definition config_runner :: platform where
  "config_runner =
     linux_runner\<lparr>rawInput := (\<lambda>name. if name = ''tool_versions'' then ''node 20'' else [])\<rparr>"

text \<open>The tool-versions input as a YAML block gives it, with a line feed at its end, and
  a TOML input of one space.\<close>

definition yaml_block_runner :: platform where
  "yaml_block_runner =
     linux_runner\<lparr>rawInput := (\<lambda>name.
        if name = ''tool_versions'' then ''node 20'' @ [CHR 10]
        else if name = ''mise_toml'' then '' '' else [])\<rparr>"

text \<open>A runner whose working directory cannot be written.\<close>

definition broken_write_runner :: platform where
  "broken_write_runner =
     config_runner\<lparr>fs_writeFile := (\<lambda>path txt. Some (Error ''EACCES: permission denied''))\<rparr>"

definition no_mkdir_runner :: platform where
  "no_mkdir_runner = linux_runner\<lparr>mkdir := (\<lambda>dir. Some (Error ''EACCES: permission denied''))\<rparr>"

definition odd_throw_runner :: platform where
  "odd_throw_runner = linux_runner\<lparr>childProcess := (\<lambda>cmd args cwd. Inl (NonError ''killed''))\<rparr>"

text \<open>The world when the environment dump has been run.\<close>

definition afterDump :: "platform \<Rightarrow> world \<Rightarrow> world" where
  "afterDump p w =
     endGroup
       (emit (GetExecOutput ''mise'' [''env'', ''--json'']
                (if getInput p ''install_dir'' \<noteq> [] then getInput p ''install_dir''
                 else process_cwd p))
         (startGroup ''Running mise env --json'' w))"

text \<open>A runner on which \<^verbatim>\<open>mise env --json\<close> ends with the exit code 1.\<close>

definition failing_env_runner :: platform where
  "failing_env_runner =
     linux_runner\<lparr>childProcess := (\<lambda>cmd args cwd.
        if args = [''env'', ''--json'']
        then Inr \<lparr>exitCode = 1, stdout = [], stderr = ''mise ERROR no config''\<rparr>
        else Inr \<lparr>exitCode = 0, stdout = [], stderr = []\<rparr>)\<rparr>"

text \<open>From \<open>w\<close> to \<open>w'\<close> the trace has only grown, and by no call that restores a cache.\<close>

definition noRestore :: "world \<Rightarrow> world \<Rightarrow> bool" where
  "noRestore w w' = (\<exists>xs. trace w' = trace w @ xs \<and> filter isRestoreCache xs = [])"

section \<open>Facts about the toolkit calls\<close>

lemmas prim_defs = startGroup_def endGroup_def info_def exportVariable_def addPath_def
  saveState_def setOutput_def setFailed_def emit_def

lemmas monad_defs = bindE_def thenE_def liftE_def throwE_def ofResult_def call_def

lemmas input_defs = getInput_def js_trim_def isWhiteSpace_def

declare decimal.simps [simp del]

lemma numberToString_1: "numberToString 1 = ''1''"
  by (simp add: numberToString_def decimal.simps [of "Suc 0"])

lemma added_append: "trace w' = trace w @ xs \<Longrightarrow> added w w' = xs"
  by (simp add: added_def)

lemma env_startGroup: "env (startGroup n w) = env w"
  by (simp add: prim_defs)

lemma env_setEnv: "env (setEnv k v w) = (if validName k then (env w)(k \<mapsto> v) else env w)"
  by (simp add: setEnv_def prim_defs)

lemma env_setEnvIfUnset:
  "env (setEnvIfUnset k v w)
     = (if truthy (env w k) \<or> \<not> validName k then env w else (env w)(k \<mapsto> v))"
  by (simp add: setEnvIfUnset_def env_setEnv)

lemma env_setEnvIfUnset_same:
  "validName k \<Longrightarrow> env (setEnvIfUnset k v w) k = (if truthy (env w k) then env w k else Some v)"
  by (simp add: env_setEnvIfUnset)

lemma valid_preinstall_names:
  "validName ''MISE_TRUSTED_CONFIG_PATHS''" "validName ''MISE_YES''" "validName ''MISE_EXPERIMENTAL''"
  "validName ''PATH''"
  by (simp_all add: validName_def)

lemma env_setEnvIfUnset_other:
  "k' \<noteq> k \<Longrightarrow> env (setEnvIfUnset k v w) k' = env w k'"
  by (simp add: env_setEnvIfUnset)

section \<open>The pre-install environment\<close>

lemma preinstall_trusted:
  "env (setEnvVarsPreInstall p w) ''MISE_TRUSTED_CONFIG_PATHS'' =
     (if truthy (env w ''MISE_TRUSTED_CONFIG_PATHS'') then env w ''MISE_TRUSTED_CONFIG_PATHS''
      else Some (process_cwd p))"
  by (simp add: setEnvVarsPreInstall_def Let_def env_setEnvIfUnset_same env_setEnvIfUnset_other
      env_startGroup valid_preinstall_names)

lemma preinstall_yes:
  "env (setEnvVarsPreInstall p w) ''MISE_YES'' =
     (if truthy (env w ''MISE_YES'') then env w ''MISE_YES'' else Some ''1'')"
  by (simp add: setEnvVarsPreInstall_def Let_def env_setEnvIfUnset_same env_setEnvIfUnset_other
      env_startGroup valid_preinstall_names)

lemma preinstall_experimental:
  "env (setEnvVarsPreInstall p w) ''MISE_EXPERIMENTAL'' =
     (if truthy (env w ''MISE_EXPERIMENTAL'') then env w ''MISE_EXPERIMENTAL''
      else Some (if getExperimental p then ''1'' else ''0''))"
  by (simp add: setEnvVarsPreInstall_def Let_def env_setEnvIfUnset_same env_setEnvIfUnset_other
      env_startGroup valid_preinstall_names)

lemma preinstall_other:
  "k \<noteq> ''MISE_TRUSTED_CONFIG_PATHS'' \<Longrightarrow> k \<noteq> ''MISE_YES'' \<Longrightarrow> k \<noteq> ''MISE_EXPERIMENTAL'' \<Longrightarrow>
   env (setEnvVarsPreInstall p w) k = env w k"
  by (simp add: setEnvVarsPreInstall_def Let_def env_setEnvIfUnset_other env_startGroup)

text \<open>
  Claim C5, as the code has it. After the pre-install stage each of
  \<^verbatim>\<open>MISE_TRUSTED_CONFIG_PATHS\<close>, \<^verbatim>\<open>MISE_YES\<close> and \<^verbatim>\<open>MISE_EXPERIMENTAL\<close> has the stage's
  value when it was missing or empty before, and its old value when that was not empty;
  every other variable of the environment has the value it had.
\<close>

theorem setEnvVarsPreInstall_env:
  "env (setEnvVarsPreInstall p w) k =
     (if k = ''MISE_TRUSTED_CONFIG_PATHS'' \<and> \<not> truthy (env w k) then Some (process_cwd p)
      else if k = ''MISE_YES'' \<and> \<not> truthy (env w k) then Some ''1''
      else if k = ''MISE_EXPERIMENTAL'' \<and> \<not> truthy (env w k)
        then Some (if getInput p ''experimental'' = ''true'' then ''1'' else ''0'')
      else env w k)"
proof -
  consider "k = ''MISE_TRUSTED_CONFIG_PATHS''" | "k = ''MISE_YES''" | "k = ''MISE_EXPERIMENTAL''"
    | "k \<noteq> ''MISE_TRUSTED_CONFIG_PATHS''" "k \<noteq> ''MISE_YES''" "k \<noteq> ''MISE_EXPERIMENTAL''"
    by blast
  then show ?thesis
  proof cases
    case 1
    then show ?thesis by (simp add: preinstall_trusted)
  next
    case 2
    then show ?thesis by (simp add: preinstall_yes)
  next
    case 3
    then show ?thesis by (simp add: preinstall_experimental getExperimental_def)
  next
    case 4
    then show ?thesis by (simp add: preinstall_other)
  qed
qed

text \<open>
  Claim C5 as stated fails: \<^verbatim>\<open>MISE_YES\<close> is present with the empty string as its value,
  and the stage replaces that value by \<^verbatim>\<open>1\<close>.
\<close>

theorem preinstall_overwrites_present_value:
  "env (fresh\<lparr>env := [''MISE_YES'' \<mapsto> []]\<rparr>) ''MISE_YES'' = Some [] \<and>
   env (setEnvVarsPreInstall linux_runner (fresh\<lparr>env := [''MISE_YES'' \<mapsto> []]\<rparr>)) ''MISE_YES''
     = Some ''1''"
  by (simp add: preinstall_yes truthy_def)

text \<open>
  Claim C10. A pre-install variable that is present with the empty string as its value
  is treated as unset: the stage gives it the stage's value (the working directory,
  \<^verbatim>\<open>1\<close>, and \<^verbatim>\<open>1\<close> or \<^verbatim>\<open>0\<close> by the experimental flag). A variable that is present
  with a value that is not empty keeps that value.
\<close>

theorem preinstall_empty_is_unset:
  "(env w ''MISE_TRUSTED_CONFIG_PATHS'' = Some [] \<longrightarrow>
      env (setEnvVarsPreInstall p w) ''MISE_TRUSTED_CONFIG_PATHS'' = Some (process_cwd p)) \<and>
   (env w ''MISE_YES'' = Some [] \<longrightarrow> env (setEnvVarsPreInstall p w) ''MISE_YES'' = Some ''1'') \<and>
   (env w ''MISE_EXPERIMENTAL'' = Some [] \<longrightarrow>
      env (setEnvVarsPreInstall p w) ''MISE_EXPERIMENTAL''
        = Some (if getExperimental p then ''1'' else ''0'')) \<and>
   (\<forall>k v. env w k = Some v \<and> v \<noteq> [] \<longrightarrow> env (setEnvVarsPreInstall p w) k = Some v)"
proof -
  have "env (setEnvVarsPreInstall p w) k = Some v" if "env w k = Some v" "v \<noteq> []" for k v
  proof -
    from that have t: "truthy (env w k)" by (simp add: truthy_def)
    consider "k = ''MISE_TRUSTED_CONFIG_PATHS''" | "k = ''MISE_YES''" | "k = ''MISE_EXPERIMENTAL''"
      | "k \<noteq> ''MISE_TRUSTED_CONFIG_PATHS''" "k \<noteq> ''MISE_YES''" "k \<noteq> ''MISE_EXPERIMENTAL''"
      by blast
    then show ?thesis
    proof cases
      case 1
      with t that show ?thesis by (simp add: preinstall_trusted)
    next
      case 2
      with t that show ?thesis by (simp add: preinstall_yes)
    next
      case 3
      with t that show ?thesis by (simp add: preinstall_experimental)
    next
      case 4
      with that show ?thesis by (simp add: preinstall_other)
    qed
  qed
  then show ?thesis
    by (simp add: preinstall_trusted preinstall_yes preinstall_experimental truthy_def)
qed

theorem preinstall_empty_is_unset_witness:
  "env (fresh\<lparr>env := [''MISE_YES'' \<mapsto> [], ''MISE_EXPERIMENTAL'' \<mapsto> ''1'']\<rparr>) ''MISE_YES'' = Some [] \<and>
   env (setEnvVarsPreInstall linux_runner
         (fresh\<lparr>env := [''MISE_YES'' \<mapsto> [], ''MISE_EXPERIMENTAL'' \<mapsto> ''1'']\<rparr>)) ''MISE_YES''
     = Some ''1'' \<and>
   env (setEnvVarsPreInstall linux_runner
         (fresh\<lparr>env := [''MISE_YES'' \<mapsto> [], ''MISE_EXPERIMENTAL'' \<mapsto> ''1'']\<rparr>)) ''MISE_EXPERIMENTAL''
     = Some ''1''"
  using preinstall_empty_is_unset
    [of "fresh\<lparr>env := [''MISE_YES'' \<mapsto> [], ''MISE_EXPERIMENTAL'' \<mapsto> ''1'']\<rparr>" linux_runner]
  by simp

section \<open>The cache manager\<close>

lemma restoreMiseCache_hash_throws:
  "hashFiles p configPatterns = Inl e \<Longrightarrow>
   restoreMiseCache p w
     = (Inl e, emit (HashFiles configPatterns) (startGroup ''Restoring mise cache'' w))"
  by (simp add: restoreMiseCache_def monad_defs Let_def)

lemma restoreMiseCache_save_throws:
  "hashFiles p configPatterns = Inr h \<Longrightarrow> getBooleanInput p ''cache_save'' = Inl e \<Longrightarrow>
   restoreMiseCache p w
     = (Inl e, emit (HashFiles configPatterns) (startGroup ''Restoring mise cache'' w))"
  by (simp add: restoreMiseCache_def monad_defs Let_def)

lemma restoreMiseCache_restore_throws:
  "hashFiles p configPatterns = Inr h \<Longrightarrow> getBooleanInput p ''cache_save'' = Inr save \<Longrightarrow>
   restoreCache p [miseDir p] (primaryKey p h) = Inl e \<Longrightarrow>
   restoreMiseCache p w = (Inl e, beforeRestore p h save w)"
  by (simp add: restoreMiseCache_def monad_defs beforeRestore_def Let_def)

lemma restoreMiseCache_miss:
  "hashFiles p configPatterns = Inr h \<Longrightarrow> getBooleanInput p ''cache_save'' = Inr save \<Longrightarrow>
   restoreCache p [miseDir p] (primaryKey p h) = Inr ck \<Longrightarrow> \<not> truthy ck \<Longrightarrow>
   restoreMiseCache p w
     = (Inr (), info (''mise cache not found for '' @ primaryKey p h)
                 (setOutput ''cache-hit'' (VBool False) (beforeRestore p h save w)))"
  by (cases ck) (simp_all add: restoreMiseCache_def monad_defs beforeRestore_def Let_def)

lemma restoreMiseCache_hit:
  "hashFiles p configPatterns = Inr h \<Longrightarrow> getBooleanInput p ''cache_save'' = Inr save \<Longrightarrow>
   restoreCache p [miseDir p] (primaryKey p h) = Inr (Some k) \<Longrightarrow> k \<noteq> [] \<Longrightarrow>
   restoreMiseCache p w
     = (Inr (), info (''mise cache restored from key: '' @ k)
                 (saveState ''CACHE_KEY'' (VStr k)
                   (setOutput ''cache-hit'' (VBool True) (beforeRestore p h save w))))"
  by (simp add: restoreMiseCache_def monad_defs beforeRestore_def Let_def truthy_def)

lemma trace_beforeRestore:
  "trace (beforeRestore p h save w) = trace w @
     [StartGroup ''Restoring mise cache'', HashFiles configPatterns,
      SaveState ''CACHE'' (VBool save), SaveState ''PRIMARY_KEY'' (VStr (primaryKey p h)),
      SaveState ''MISE_DIR'' (VStr (miseDir p)), RestoreCache [miseDir p] (primaryKey p h)]"
  by (simp add: beforeRestore_def prim_defs)

lemma saved_beforeRestore:
  "saved_state (beforeRestore p h save w) =
     (saved_state w)(''CACHE'' \<mapsto> VBool save, ''PRIMARY_KEY'' \<mapsto> VStr (primaryKey p h),
        ''MISE_DIR'' \<mapsto> VStr (miseDir p))"
  by (simp add: beforeRestore_def prim_defs)


lemma outputs_beforeRestore: "outputs (beforeRestore p h save w) = outputs w"
  by (simp add: beforeRestore_def prim_defs)



lemma restoreMiseCache_cases:
  assumes hf: "hashFiles p configPatterns = Inr h"
    and cs: "getBooleanInput p ''cache_save'' = Inr save"
  obtains (throws) e where "restoreCache p [miseDir p] (primaryKey p h) = Inl e"
      "restoreMiseCache p w = (Inl e, beforeRestore p h save w)"
  | (miss) ck where "restoreCache p [miseDir p] (primaryKey p h) = Inr ck" "\<not> truthy ck"
      "restoreMiseCache p w
         = (Inr (), info (''mise cache not found for '' @ primaryKey p h)
                     (setOutput ''cache-hit'' (VBool False) (beforeRestore p h save w)))"
  | (hit) k where "restoreCache p [miseDir p] (primaryKey p h) = Inr (Some k)" "k \<noteq> []"
      "restoreMiseCache p w
         = (Inr (), info (''mise cache restored from key: '' @ k)
                     (saveState ''CACHE_KEY'' (VStr k)
                       (setOutput ''cache-hit'' (VBool True) (beforeRestore p h save w))))"
proof (cases "restoreCache p [miseDir p] (primaryKey p h)")
  case (Inl e)
  with throws restoreMiseCache_restore_throws [OF hf cs] show ?thesis by blast
next
  case (Inr ck)
  show ?thesis
  proof (cases "truthy ck")
    case False
    with Inr miss restoreMiseCache_miss [OF hf cs] show ?thesis by blast
  next
    case True
    then obtain k where k: "ck = Some k" "k \<noteq> []"
      by (cases ck) (auto simp: truthy_def)
    with Inr hit restoreMiseCache_hit [OF hf cs] show ?thesis by blast
  qed
qed


lemma added_beforeRestore:
  "trace w' = trace (beforeRestore p h save w) @ ys \<Longrightarrow>
   added w w' =
     [StartGroup ''Restoring mise cache'', HashFiles configPatterns,
      SaveState ''CACHE'' (VBool save), SaveState ''PRIMARY_KEY'' (VStr (primaryKey p h)),
      SaveState ''MISE_DIR'' (VStr (miseDir p)), RestoreCache [miseDir p] (primaryKey p h)] @ ys"
  by (rule added_append) (simp add: trace_beforeRestore)


text \<open>
  Claim C6. When the cache manager runs and the restore answers, hit or miss, the states
  \<^verbatim>\<open>CACHE\<close> (the save flag), \<^verbatim>\<open>PRIMARY_KEY\<close> (the key) and \<^verbatim>\<open>MISE_DIR\<close> (the
  directory) are saved; \<^verbatim>\<open>CACHE_KEY\<close> is saved exactly when the restore reported a hit,
  which is also when the \<^verbatim>\<open>cache-hit\<close> output is true.
\<close>

theorem restoreMiseCache_persists:
  assumes hf: "hashFiles p configPatterns = Inr h"
    and cs: "getBooleanInput p ''cache_save'' = Inr save"
    and rc: "restoreCache p [miseDir p] (primaryKey p h) = Inr ck"
  shows "fst (restoreMiseCache p w) = Inr () \<and>
    saved_state (snd (restoreMiseCache p w)) ''CACHE'' = Some (VBool save) \<and>
    saved_state (snd (restoreMiseCache p w)) ''PRIMARY_KEY'' = Some (VStr (primaryKey p h)) \<and>
    saved_state (snd (restoreMiseCache p w)) ''MISE_DIR'' = Some (VStr (miseDir p)) \<and>
    outputs (snd (restoreMiseCache p w)) ''cache-hit'' = Some (VBool (truthy ck)) \<and>
    List.map_filter savedName (added w (snd (restoreMiseCache p w)))
      = [''CACHE'', ''PRIMARY_KEY'', ''MISE_DIR''] @ (if truthy ck then [''CACHE_KEY''] else []) \<and>
    saved_state (snd (restoreMiseCache p w)) ''CACHE_KEY''
      = (if truthy ck then map_option VStr ck else saved_state w ''CACHE_KEY'')"
proof (cases "truthy ck")
  case False
  note r = restoreMiseCache_miss [OF hf cs rc False, of w]
  have f: "fst (restoreMiseCache p w) = Inr ()"
    by (simp add: r)
  have "trace (snd (restoreMiseCache p w)) = trace (beforeRestore p h save w) @
          [SetOutput ''cache-hit'' (VBool False), Info (''mise cache not found for '' @ primaryKey p h)]"
    by (simp add: r prim_defs)
  then have ad: "added w (snd (restoreMiseCache p w)) =
     [StartGroup ''Restoring mise cache'', HashFiles configPatterns,
      SaveState ''CACHE'' (VBool save), SaveState ''PRIMARY_KEY'' (VStr (primaryKey p h)),
      SaveState ''MISE_DIR'' (VStr (miseDir p)), RestoreCache [miseDir p] (primaryKey p h)]
     @ [SetOutput ''cache-hit'' (VBool False), Info (''mise cache not found for '' @ primaryKey p h)]"
    by (rule added_beforeRestore)
  have sv: "saved_state (snd (restoreMiseCache p w)) = saved_state (beforeRestore p h save w)"
    and ou: "outputs (snd (restoreMiseCache p w)) ''cache-hit'' = Some (VBool False)"
    by (simp_all add: r prim_defs)
  show ?thesis
    using False by (simp add: f ad sv ou saved_beforeRestore)
next
  case True
  then obtain k where k: "ck = Some k" "k \<noteq> []"
    by (cases ck) (auto simp: truthy_def)
  note r = restoreMiseCache_hit [OF hf cs rc [unfolded k] k(2), of w]
  have f: "fst (restoreMiseCache p w) = Inr ()"
    by (simp add: r)
  have "trace (snd (restoreMiseCache p w)) = trace (beforeRestore p h save w) @
          [SetOutput ''cache-hit'' (VBool True), SaveState ''CACHE_KEY'' (VStr k),
           Info (''mise cache restored from key: '' @ k)]"
    by (simp add: r prim_defs)
  then have ad: "added w (snd (restoreMiseCache p w)) =
     [StartGroup ''Restoring mise cache'', HashFiles configPatterns,
      SaveState ''CACHE'' (VBool save), SaveState ''PRIMARY_KEY'' (VStr (primaryKey p h)),
      SaveState ''MISE_DIR'' (VStr (miseDir p)), RestoreCache [miseDir p] (primaryKey p h)]
     @ [SetOutput ''cache-hit'' (VBool True), SaveState ''CACHE_KEY'' (VStr k),
           Info (''mise cache restored from key: '' @ k)]"
    by (rule added_beforeRestore)
  have sv: "saved_state (snd (restoreMiseCache p w))
              = (saved_state (beforeRestore p h save w))(''CACHE_KEY'' \<mapsto> VStr k)"
    and ou: "outputs (snd (restoreMiseCache p w)) ''cache-hit'' = Some (VBool True)"
    by (simp_all add: r prim_defs)
  show ?thesis
    using True k by (simp add: f ad sv ou saved_beforeRestore)
qed

lemma restore_attempted_cases:
  assumes "\<exists>e\<in>set (added w (snd (restoreMiseCache p w))). isRestoreCache e"
  obtains h save ys where "hashFiles p configPatterns = Inr h"
    "getBooleanInput p ''cache_save'' = Inr save"
    "trace (snd (restoreMiseCache p w)) = trace (beforeRestore p h save w) @ ys"
proof (cases "hashFiles p configPatterns")
  case (Inl e)
  have "added w (snd (restoreMiseCache p w)) = [StartGroup ''Restoring mise cache'', HashFiles configPatterns]"
    by (rule added_append) (simp add: restoreMiseCache_hash_throws [OF Inl] prim_defs)
  with assms show ?thesis by simp
next
  case hf: (Inr h)
  show ?thesis
  proof (cases "getBooleanInput p ''cache_save''")
    case (Inl e)
    have "added w (snd (restoreMiseCache p w)) = [StartGroup ''Restoring mise cache'', HashFiles configPatterns]"
      by (rule added_append) (simp add: restoreMiseCache_save_throws [OF hf Inl] prim_defs)
    with assms show ?thesis by simp
  next
    case cs: (Inr save)
    have "\<exists>ys. trace (snd (restoreMiseCache p w)) = trace (beforeRestore p h save w) @ ys"
      by (cases rule: restoreMiseCache_cases [OF hf cs, of w]; simp add: prim_defs)
    with hf cs that show ?thesis by blast
  qed
qed

text \<open>
  Claim C9. Whenever the cache manager asks for a restore, the three states \<^verbatim>\<open>CACHE\<close>,
  \<^verbatim>\<open>PRIMARY_KEY\<close> and \<^verbatim>\<open>MISE_DIR\<close> have been saved before that call, in this order. So
  when the restore throws, the cache manager throws the same value and the three states
  are saved all the same.
\<close>

theorem state_saved_before_restore:
  "((\<exists>e\<in>set (added w (snd (restoreMiseCache p w))). isRestoreCache e) \<longrightarrow>
      List.map_filter savedName
        (takeWhile (\<lambda>e. \<not> isRestoreCache e) (added w (snd (restoreMiseCache p w))))
      = [''CACHE'', ''PRIMARY_KEY'', ''MISE_DIR'']) \<and>
   (hashFiles p configPatterns = Inr h \<and> getBooleanInput p ''cache_save'' = Inr save \<and>
    restoreCache p [miseDir p] (primaryKey p h) = Inl t \<longrightarrow>
      fst (restoreMiseCache p w) = Inl t \<and>
      saved_state (snd (restoreMiseCache p w))
        = (saved_state w)(''CACHE'' \<mapsto> VBool save, ''PRIMARY_KEY'' \<mapsto> VStr (primaryKey p h),
             ''MISE_DIR'' \<mapsto> VStr (miseDir p)))"
proof (intro conjI impI)
  assume "\<exists>e\<in>set (added w (snd (restoreMiseCache p w))). isRestoreCache e"
  then obtain h save ys where
    "trace (snd (restoreMiseCache p w)) = trace (beforeRestore p h save w) @ ys"
    by (rule restore_attempted_cases)
  then have "added w (snd (restoreMiseCache p w)) =
     [StartGroup ''Restoring mise cache'', HashFiles configPatterns,
      SaveState ''CACHE'' (VBool save), SaveState ''PRIMARY_KEY'' (VStr (primaryKey p h)),
      SaveState ''MISE_DIR'' (VStr (miseDir p)), RestoreCache [miseDir p] (primaryKey p h)] @ ys"
    by (rule added_beforeRestore)
  then show "List.map_filter savedName
        (takeWhile (\<lambda>e. \<not> isRestoreCache e) (added w (snd (restoreMiseCache p w))))
      = [''CACHE'', ''PRIMARY_KEY'', ''MISE_DIR'']"
    by (simp add:)
next
  assume a: "hashFiles p configPatterns = Inr h \<and> getBooleanInput p ''cache_save'' = Inr save \<and>
    restoreCache p [miseDir p] (primaryKey p h) = Inl t"
  then have r: "restoreMiseCache p w = (Inl t, beforeRestore p h save w)"
    by (simp add: restoreMiseCache_restore_throws)
  show "fst (restoreMiseCache p w) = Inl t" by (simp add: r)
  show "saved_state (snd (restoreMiseCache p w))
        = (saved_state w)(''CACHE'' \<mapsto> VBool save, ''PRIMARY_KEY'' \<mapsto> VStr (primaryKey p h),
             ''MISE_DIR'' \<mapsto> VStr (miseDir p))"
    by (simp add: r saved_beforeRestore)
qed

lemma linux_oracles:
  "hashFiles linux_runner pats = Inr ''0123abcd''"
  "getBooleanInput linux_runner ''cache_save'' = Inr True"
  "restoreCache linux_runner paths key = Inr None"
  "miseDir linux_runner = ''/home/runner/.local/share/mise''"
  "primaryKey linux_runner h = ''mise-v0-linux-x64-'' @ h"
  by (simp_all add: linux_runner_def input_defs primaryKey_def getOS_def)


lemma hit_oracles:
  "hashFiles hit_runner pats = Inr ''0123abcd''"
  "getBooleanInput hit_runner ''cache_save'' = Inr True"
  "restoreCache hit_runner paths key = Inr (Some key)"
  "miseDir hit_runner = ''/home/runner/.local/share/mise''"
  "primaryKey hit_runner h = ''mise-v0-linux-x64-'' @ h"
  by (simp_all add: hit_runner_def linux_runner_def input_defs primaryKey_def getOS_def)

lemma broken_cache_oracles:
  "hashFiles broken_cache_runner pats = Inr ''0123abcd''"
  "getBooleanInput broken_cache_runner name = Inr True"
  "restoreCache broken_cache_runner paths key = Inl (Error ''cache service unavailable'')"
  "miseDir broken_cache_runner = ''/home/runner/.local/share/mise''"
  "primaryKey broken_cache_runner h = ''mise-v0-linux-x64-'' @ h"
  by (simp_all add: broken_cache_runner_def linux_runner_def input_defs primaryKey_def getOS_def)


theorem restoreMiseCache_persists_witness:
  "List.map_filter savedName (added fresh (snd (restoreMiseCache linux_runner fresh)))
     = [''CACHE'', ''PRIMARY_KEY'', ''MISE_DIR''] \<and>
   outputs (snd (restoreMiseCache linux_runner fresh)) ''cache-hit'' = Some (VBool False) \<and>
   saved_state (snd (restoreMiseCache linux_runner fresh)) ''CACHE_KEY'' = None \<and>
   List.map_filter savedName (added fresh (snd (restoreMiseCache hit_runner fresh)))
     = [''CACHE'', ''PRIMARY_KEY'', ''MISE_DIR'', ''CACHE_KEY''] \<and>
   outputs (snd (restoreMiseCache hit_runner fresh)) ''cache-hit'' = Some (VBool True) \<and>
   saved_state (snd (restoreMiseCache hit_runner fresh)) ''CACHE_KEY''
     = Some (VStr ''mise-v0-linux-x64-0123abcd'') \<and>
   saved_state (snd (restoreMiseCache hit_runner fresh)) ''CACHE'' = Some (VBool True) \<and>
   saved_state (snd (restoreMiseCache hit_runner fresh)) ''MISE_DIR''
     = Some (VStr ''/home/runner/.local/share/mise'')"
  using restoreMiseCache_persists [of linux_runner "''0123abcd''" True None fresh]
    restoreMiseCache_persists
      [of hit_runner "''0123abcd''" True "Some ''mise-v0-linux-x64-0123abcd''" fresh]
  by (simp add: linux_oracles hit_oracles truthy_def fresh_def)

theorem state_saved_before_restore_witness:
  "fst (restoreMiseCache broken_cache_runner fresh) = Inl (Error ''cache service unavailable'') \<and>
   saved_state (snd (restoreMiseCache broken_cache_runner fresh))
     = [''CACHE'' \<mapsto> VBool True, ''PRIMARY_KEY'' \<mapsto> VStr ''mise-v0-linux-x64-0123abcd'',
        ''MISE_DIR'' \<mapsto> VStr ''/home/runner/.local/share/mise''] \<and>
   List.map_filter savedName
     (takeWhile (\<lambda>e. \<not> isRestoreCache e)
        (added fresh (snd (restoreMiseCache broken_cache_runner fresh))))
     = [''CACHE'', ''PRIMARY_KEY'', ''MISE_DIR'']"
proof -
  have r: "restoreMiseCache broken_cache_runner fresh
      = (Inl (Error ''cache service unavailable''),
         beforeRestore broken_cache_runner ''0123abcd'' True fresh)"
    by (rule restoreMiseCache_restore_throws) (simp_all add: broken_cache_oracles)
  have "added fresh (snd (restoreMiseCache broken_cache_runner fresh)) =
     [StartGroup ''Restoring mise cache'', HashFiles configPatterns,
      SaveState ''CACHE'' (VBool True),
      SaveState ''PRIMARY_KEY'' (VStr (primaryKey broken_cache_runner ''0123abcd'')),
      SaveState ''MISE_DIR'' (VStr (miseDir broken_cache_runner)),
      RestoreCache [miseDir broken_cache_runner] (primaryKey broken_cache_runner ''0123abcd'')] @ []"
    by (rule added_beforeRestore) (simp add: r)
  then have at: "\<exists>e\<in>set (added fresh (snd (restoreMiseCache broken_cache_runner fresh))).
      isRestoreCache e"
    by simp
  show ?thesis
    using at state_saved_before_restore
      [of fresh broken_cache_runner "''0123abcd''" True "Error ''cache service unavailable''"]
    by (simp add: broken_cache_oracles fresh_def)
qed

section \<open>The run and its handler\<close>

lemma thenE_liftE_id: "thenE m (liftE id) = m"
  by (rule ext) (simp add: monad_defs split: prod.splits sum.splits)

lemma body_pipeline: "body p = runAll (pipeline p)"
  by (simp add: body_def pipeline_def cacheStage_def installStage_def Let_def thenE_liftE_id)

lemma runAll_throw:
  "runAll pre w = (Inr (), w1) \<Longrightarrow> s w1 = (Inl t, w2) \<Longrightarrow> runAll (pre @ s # post) w = (Inl t, w2)"
proof (induction pre arbitrary: w)
  case Nil
  then show ?case by (simp add: monad_defs)
next
  case (Cons a pre)
  from Cons.prems(1) obtain wa where a: "a w = (Inr (), wa)" and r: "runAll pre wa = (Inr (), w1)"
    by (auto simp: monad_defs split: prod.splits sum.splits)
  from Cons.IH [OF r Cons.prems(2)] a show ?case
    by (simp add: monad_defs)
qed

lemma body_stage_throws:
  "pipeline p = pre @ s # post \<Longrightarrow> runAll pre w = (Inr (), w1) \<Longrightarrow> s w1 = (Inl t, w2) \<Longrightarrow>
   body p w = (Inl t, w2)"
  by (simp add: body_pipeline runAll_throw)

lemma run_never_throws_Error: "fst (run p w) \<noteq> Inl (Error m)"
  by (simp add: run_def split: prod.splits sum.splits thrown.splits)

text \<open>
  Claim C8. Whatever stage of the pipeline throws first, the stages after it do not run.
  When the thrown value is an \<^verbatim>\<open>Error\<close>, the handler of \<^verbatim>\<open>run\<close> records its message with
  \<^verbatim>\<open>core.setFailed\<close> and the run returns; this is the only call made after the throw.
  When the thrown value is anything else, \<^verbatim>\<open>run\<close> throws it again and records no
  failure. So \<^verbatim>\<open>run\<close> never throws an \<^verbatim>\<open>Error\<close>.
\<close>

theorem run_handler:
  assumes "pipeline p = pre @ s # post" and "runAll pre w = (Inr (), w1)"
    and "s w1 = (Inl t, w2)"
  shows "(\<forall>m. t = Error m \<longrightarrow>
            run p w = (Inr (), setFailed m w2) \<and> failed (snd (run p w)) = Some m \<and>
            trace (snd (run p w)) = trace w2 @ [SetFailed m]) \<and>
         (\<forall>v. t = NonError v \<longrightarrow> run p w = (Inl (NonError v), w2)) \<and>
         (\<forall>m. fst (run p w) \<noteq> Inl (Error m))"
proof -
  from assms have b: "body p w = (Inl t, w2)"
    by (rule body_stage_throws)
  show ?thesis
    by (cases t) (simp_all add: run_def b prim_defs)
qed


lemma noRestore_refl: "noRestore w w"
  by (simp add: noRestore_def)

lemma noRestore_trans: "noRestore a b \<Longrightarrow> noRestore b c \<Longrightarrow> noRestore a c"
  by (auto simp: noRestore_def)

lemma noRestore_emit: "\<not> isRestoreCache e \<Longrightarrow> noRestore w w' \<Longrightarrow> noRestore w (emit e w')"
  by (auto simp: noRestore_def emit_def)

lemma noRestore_trace_only:
  "trace w'' = trace w' \<Longrightarrow> noRestore w w' \<Longrightarrow> noRestore w w''"
  by (simp add: noRestore_def)

lemma noRestore_prims:
  "noRestore w w' \<Longrightarrow> noRestore w (startGroup n w')"
  "noRestore w w' \<Longrightarrow> noRestore w (endGroup w')"
  "noRestore w w' \<Longrightarrow> noRestore w (info msg w')"
  "noRestore w w' \<Longrightarrow> noRestore w (exportVariable k v w')"
  "noRestore w w' \<Longrightarrow> noRestore w (addPath p e w')"
  "noRestore w w' \<Longrightarrow> noRestore w (setOutput n c w')"
  "noRestore w w' \<Longrightarrow> noRestore w (setFailed msg w')"
  "noRestore w w' \<Longrightarrow> noRestore w (setEnv k v w')"
  by (auto simp: noRestore_def prim_defs setEnv_def)

lemma noRestore_setEnvIfUnset: "noRestore w w' \<Longrightarrow> noRestore w (setEnvIfUnset k v w')"
  by (simp add: setEnvIfUnset_def noRestore_prims)

lemma noRestore_setEnvVarsPreInstall: "noRestore w w' \<Longrightarrow> noRestore w (setEnvVarsPreInstall p w')"
  by (simp add: setEnvVarsPreInstall_def Let_def noRestore_setEnvIfUnset noRestore_prims)

lemma noRestore_addPathElements: "noRestore w w' \<Longrightarrow> noRestore w (addPathElements p segs w')"
  by (induction segs arbitrary: w') (simp_all add: noRestore_prims)

lemma noRestore_exportEntries: "noRestore w w' \<Longrightarrow> noRestore w (exportEntries p kvs w')"
  by (induction kvs arbitrary: w') (auto simp: noRestore_prims noRestore_addPathElements)

lemma noRestore_mise: "noRestore w w' \<Longrightarrow> noRestore w (snd (mise p args w'))"
  by (simp add: mise_def group_def Let_def noRestore_prims noRestore_emit split: prod.splits)

lemma noRestore_writeFile: "noRestore w w' \<Longrightarrow> noRestore w (snd (writeFile p path txt w'))"
  by (auto simp: noRestore_def writeFile_def group_def Let_def prim_defs split: option.splits)

lemma noRestore_setToolVersions: "noRestore w w' \<Longrightarrow> noRestore w (snd (setToolVersions p w'))"
  by (simp add: setToolVersions_def Let_def noRestore_writeFile liftE_def)

lemma noRestore_setMiseToml: "noRestore w w' \<Longrightarrow> noRestore w (snd (setMiseToml p w'))"
  by (simp add: setMiseToml_def Let_def noRestore_writeFile liftE_def)

lemma noRestore_setupMise: "noRestore w w' \<Longrightarrow> noRestore w (snd (setupMise p version w'))"
  by (auto simp: noRestore_def setupMise_def Let_def monad_defs prim_defs
      split: option.splits sum.splits)

lemma noRestore_testStage:
  "noRestore w w' \<Longrightarrow> noRestore w (snd (bindE (testMise p) (\<lambda>_. liftE id) w'))"
  using noRestore_mise [of w w' p "[''--version'']"]
  by (auto simp: monad_defs testMise_def split: prod.splits sum.splits)

lemma noRestore_installStage: "noRestore w w' \<Longrightarrow> noRestore w (snd (installStage p w'))"
  using noRestore_mise [of w w' p "[''install'']"]
  by (auto simp: installStage_def monad_defs miseInstall_def split: prod.splits sum.splits)

lemma noRestore_setEnvVars: "noRestore w w' \<Longrightarrow> noRestore w (snd (setEnvVars p w'))"
  using noRestore_mise [of w w' p "[''env'', ''--json'']"]
  by (auto simp: setEnvVars_def monad_defs miseEnv_def noRestore_prims noRestore_exportEntries
      split: prod.splits sum.splits)

lemma noRestore_cacheStage_off:
  "getBooleanInput p ''cache'' = Inr False \<Longrightarrow> noRestore w w' \<Longrightarrow>
   noRestore w (snd (cacheStage p w'))"
  by (simp add: cacheStage_def monad_defs noRestore_prims)

lemma noRestore_body:
  assumes off: "getBooleanInput p ''cache'' = Inr False"
  shows "noRestore w (snd (body p w))"
proof -
  have step: "noRestore w (snd (thenE s k w'))"
    if "noRestore w w'" "\<And>v. noRestore w v \<Longrightarrow> noRestore w (snd (s v))"
       "\<And>v. noRestore w v \<Longrightarrow> noRestore w (snd (k v))" for s :: "unit action" and k :: "unit action" and w'
  proof (cases "s w'")
    case (Pair r v)
    with that(2) [OF that(1)] have v: "noRestore w v" by simp
    show ?thesis
    proof (cases r)
      case (Inl e)
      with Pair v show ?thesis by (simp add: monad_defs)
    next
      case (Inr u)
      with Pair that(3) [OF v] show ?thesis by (simp add: monad_defs)
    qed
  qed
  show ?thesis
    unfolding body_pipeline pipeline_def runAll.simps
    by (intro step noRestore_refl noRestore_setToolVersions noRestore_setMiseToml
        noRestore_cacheStage_off [OF off] noRestore_setupMise noRestore_testStage
        noRestore_installStage noRestore_setEnvVars)
      (simp_all add: liftE_def noRestore_setEnvVarsPreInstall)
qed

lemma noRestore_run:
  "getBooleanInput p ''cache'' = Inr False \<Longrightarrow> noRestore w (snd (run p w))"
  using noRestore_body [of p w]
  by (auto simp: run_def noRestore_prims split: prod.splits sum.splits thrown.splits)


lemma writeFile_ok:
  "fs_writeFile p path txt = None \<Longrightarrow>
   fst (writeFile p path txt w) = Inr () \<and>
   files (snd (writeFile p path txt w)) = (files w)(path \<mapsto> (txt, ''utf8'')) \<and>
   added w (snd (writeFile p path txt w))
     = [StartGroup (''Writing '' @ path), Info (''Body:'' @ [CHR 10] @ txt),
        WriteFile path txt ''utf8'', EndGroup]"
  by (simp add: writeFile_def group_def Let_def prim_defs added_def)

lemma js_trim_id:
  assumes "s \<noteq> []" "\<not> isWhiteSpace (hd s)" "\<not> isWhiteSpace (last s)"
  shows "js_trim s = s"
proof -
  from assms(1,2) have 1: "dropWhile isWhiteSpace s = s"
    by (cases s) simp_all
  from assms(1,3) have 2: "dropWhile isWhiteSpace (rev s) = rev s"
    by (cases "rev s") (simp_all add: last_rev [symmetric] del: last_rev)
  show ?thesis
    by (simp add: js_trim_def 1 2)
qed

text \<open>
  Claim C7, as the code has it. The body is what \<^verbatim>\<open>core.getInput\<close> answers: the input
  without the white space at its ends. For the tool-versions file and for the TOML file
  alike: when the trimmed input is empty nothing happens at all, no call and no change;
  when it is not empty and the write succeeds, the file holds exactly the trimmed input,
  written with the encoding \<^verbatim>\<open>utf8\<close>, whatever the file held before. An input that
  neither begins nor ends with white space is its own trimmed input.
\<close>

theorem config_writer:
  "(js_trim (rawInput p ''tool_versions'') = [] \<longrightarrow> setToolVersions p w = (Inr (), w)) \<and>
   (js_trim (rawInput p ''tool_versions'') \<noteq> [] \<and>
    fs_writeFile p ''.tool-versions'' (js_trim (rawInput p ''tool_versions'')) = None \<longrightarrow>
      fst (setToolVersions p w) = Inr () \<and>
      files (snd (setToolVersions p w))
        = (files w)(''.tool-versions'' \<mapsto> (js_trim (rawInput p ''tool_versions''), ''utf8'')) \<and>
      WriteFile ''.tool-versions'' (js_trim (rawInput p ''tool_versions'')) ''utf8''
        \<in> set (added w (snd (setToolVersions p w)))) \<and>
   (js_trim (rawInput p ''mise_toml'') = [] \<longrightarrow> setMiseToml p w = (Inr (), w)) \<and>
   (js_trim (rawInput p ''mise_toml'') \<noteq> [] \<and>
    fs_writeFile p ''.mise.toml'' (js_trim (rawInput p ''mise_toml'')) = None \<longrightarrow>
      fst (setMiseToml p w) = Inr () \<and>
      files (snd (setMiseToml p w))
        = (files w)(''.mise.toml'' \<mapsto> (js_trim (rawInput p ''mise_toml''), ''utf8'')) \<and>
      WriteFile ''.mise.toml'' (js_trim (rawInput p ''mise_toml'')) ''utf8''
        \<in> set (added w (snd (setMiseToml p w)))) \<and>
   (s \<noteq> [] \<and> \<not> isWhiteSpace (hd s) \<and> \<not> isWhiteSpace (last s) \<longrightarrow> js_trim s = s)"
  by (simp add: setToolVersions_def setMiseToml_def Let_def liftE_def writeFile_ok getInput_def
      js_trim_id)

theorem config_writer_witness:
  "files (snd (setToolVersions config_runner
                 (fresh\<lparr>files := [''.tool-versions'' \<mapsto> (''node 18'', ''utf8'')]\<rparr>)))
     = [''.tool-versions'' \<mapsto> (''node 20'', ''utf8'')] \<and>
   setMiseToml config_runner fresh = (Inr (), fresh) \<and>
   js_trim ''node 20'' = ''node 20''"
  using config_writer [of config_runner "fresh\<lparr>files := [''.tool-versions'' \<mapsto> (''node 18'', ''utf8'')]\<rparr>"
      "''node 20''"]
    config_writer [of config_runner fresh "''node 20''"]
  by (simp add: config_runner_def linux_runner_def js_trim_def isWhiteSpace_def)

text \<open>
  Claim C7 as stated fails. The tool-versions input is \<^verbatim>\<open>node 20\<close> followed by a line
  feed, and the file written holds \<^verbatim>\<open>node 20\<close> without it; the TOML input is one
  space, which is not the empty string, and no file is written.
\<close>

theorem config_writer_trims:
  "rawInput yaml_block_runner ''tool_versions'' = ''node 20'' @ [CHR 10] \<and>
   files (snd (setToolVersions yaml_block_runner fresh)) ''.tool-versions''
     = Some (''node 20'', ''utf8'') \<and>
   rawInput yaml_block_runner ''mise_toml'' = '' '' \<and>
   setMiseToml yaml_block_runner fresh = (Inr (), fresh)"
  by (simp add: setToolVersions_def setMiseToml_def Let_def liftE_def writeFile_def group_def
      prim_defs yaml_block_runner_def linux_runner_def input_defs fresh_def)

lemma outputs_prims:
  "outputs (startGroup n w) = outputs w"
  "outputs (endGroup w) = outputs w"
  "outputs (info msg w) = outputs w"
  "outputs (emit e w) = outputs w"
  "outputs (exportVariable k v w) = outputs w"
  "outputs (addPath p seg w) = outputs w"
  "outputs (setFailed msg w) = outputs w"
  "outputs (setEnv k v w) = outputs w"
  "outputs (setEnvIfUnset k v w) = outputs w"
  by (simp_all add: prim_defs setEnv_def setEnvIfUnset_def)

lemma outputs_setEnvVarsPreInstall: "outputs (setEnvVarsPreInstall p w) = outputs w"
  by (simp add: setEnvVarsPreInstall_def Let_def outputs_prims)

lemma outputs_addPathElements: "outputs (addPathElements p segs w) = outputs w"
  by (induction segs arbitrary: w) (simp_all add: outputs_prims)

lemma outputs_exportEntries: "outputs (exportEntries p kvs w) = outputs w"
  by (induction kvs arbitrary: w) (auto simp: outputs_prims outputs_addPathElements)

lemma outputs_mise: "outputs (snd (mise p args w)) = outputs w"
  by (simp add: mise_def group_def Let_def outputs_prims)

lemma outputs_setupMise: "outputs (snd (setupMise p version w)) = outputs w"
  by (simp add: setupMise_def Let_def monad_defs outputs_prims split: option.splits sum.splits)

lemma outputs_testStage: "outputs (snd (bindE (testMise p) (\<lambda>_. liftE id) w)) = outputs w"
  using outputs_mise [of p "[''--version'']" w]
  by (auto simp: monad_defs testMise_def split: prod.splits sum.splits)

lemma outputs_installStage: "outputs (snd (installStage p w)) = outputs w"
  using outputs_mise [of p "[''install'']" w]
  by (auto simp: installStage_def monad_defs miseInstall_def split: prod.splits sum.splits)

lemma outputs_setEnvVars: "outputs (snd (setEnvVars p w)) = outputs w"
  using outputs_mise [of p "[''env'', ''--json'']" w]
  by (auto simp: setEnvVars_def monad_defs miseEnv_def outputs_prims outputs_exportEntries
      split: prod.splits sum.splits)

lemma outputs_runAll:
  "(\<And>s v. s \<in> set ss \<Longrightarrow> outputs (snd (s v)) = outputs v) \<Longrightarrow>
   outputs (snd (runAll ss w)) = outputs w"
proof (induction ss arbitrary: w)
  case Nil
  then show ?case by (simp add: liftE_def)
next
  case (Cons s ss)
  have s: "outputs (snd (s w)) = outputs w"
    by (rule Cons.prems) simp
  have r: "outputs (snd (runAll ss v)) = outputs v" for v
    by (rule Cons.IH) (simp add: Cons.prems)
  show ?case
    using s r [of "snd (s w)"]
    by (auto simp: monad_defs split: prod.splits sum.splits)
qed

lemma runAll_append:
  "runAll pre w = (Inr (), w1) \<Longrightarrow> runAll (pre @ post) w = runAll post w1"
proof (induction pre arbitrary: w)
  case Nil
  then show ?case by (simp add: monad_defs)
next
  case (Cons a pre)
  from Cons.prems obtain wa where a: "a w = (Inr (), wa)" and r: "runAll pre wa = (Inr (), w1)"
    by (auto simp: monad_defs split: prod.splits sum.splits)
  from Cons.IH [OF r] a show ?case
    by (simp add: monad_defs)
qed

lemma outputs_run: "outputs (snd (run p w)) = outputs (snd (body p w))"
  by (simp add: run_def outputs_prims split: prod.splits sum.splits thrown.splits)

lemma runAll_prefix_throw:
  "runAll pre w = (Inl t, w1) \<Longrightarrow> runAll (pre @ post) w = (Inl t, w1)"
proof (induction pre arbitrary: w)
  case Nil
  then show ?case by (simp add: monad_defs)
next
  case (Cons a pre)
  show ?case
  proof (cases "a w")
    case (Pair r wa)
    show ?thesis
    proof (cases r)
      case (Inl e)
      with Pair Cons.prems show ?thesis by (simp add: monad_defs)
    next
      case (Inr u)
      with Pair Cons.prems have "runAll pre wa = (Inl t, w1)" by (simp add: monad_defs)
      from Cons.IH [OF this] Pair Inr show ?thesis by (simp add: monad_defs)
    qed
  qed
qed

lemma outputs_writeFile: "outputs (snd (writeFile p path txt w)) = outputs w"
  by (simp add: writeFile_def group_def Let_def prim_defs split: option.splits)

lemma outputs_setToolVersions: "outputs (snd (setToolVersions p w)) = outputs w"
  by (simp add: setToolVersions_def Let_def liftE_def outputs_writeFile)

lemma outputs_setMiseToml: "outputs (snd (setMiseToml p w)) = outputs w"
  by (simp add: setMiseToml_def Let_def liftE_def outputs_writeFile)

text \<open>
  Claim C4, as the code has it. When the \<^verbatim>\<open>cache\<close> input is false, no call of the whole
  run restores a cache, and the cache stage does nothing but set the output
  \<^verbatim>\<open>cache-hit\<close> to false. When the config writer before it has not thrown, that is the
  value of the output at the end of the run; when the config writer has thrown, the run
  ends before the cache stage and leaves every output as it was.
\<close>

theorem cache_disabled:
  assumes off: "getBooleanInput p ''cache'' = Inr False"
  shows "filter isRestoreCache (added w (snd (run p w))) = [] \<and>
         cacheStage p w1 = (Inr (), setOutput ''cache-hit'' (VBool False) w1) \<and>
         (runAll [setToolVersions p, setMiseToml p] w = (Inr (), w1) \<longrightarrow>
            outputs (snd (run p w)) ''cache-hit'' = Some (VBool False)) \<and>
         (runAll [setToolVersions p, setMiseToml p] w = (Inl t, w2) \<longrightarrow>
            outputs (snd (run p w)) = outputs w)"
proof (intro conjI impI)
  from noRestore_run [OF off, of w]
  show "filter isRestoreCache (added w (snd (run p w))) = []"
    by (auto simp: noRestore_def added_def)
  show c: "cacheStage p w1 = (Inr (), setOutput ''cache-hit'' (VBool False) w1)"
    by (simp add: cacheStage_def monad_defs off)
  let ?rest = "[setupMise p (getInput p ''version''), liftE (setEnvVarsPreInstall p),
      bindE (testMise p) (\<lambda>_. liftE id), installStage p, setEnvVars p]"
  have split: "pipeline p = [setToolVersions p, setMiseToml p] @ (cacheStage p # ?rest)"
    by (simp add: pipeline_def)
  {
    assume pre: "runAll [setToolVersions p, setMiseToml p] w = (Inr (), w1)"
    from split have "body p w = runAll (cacheStage p # ?rest) w1"
      by (simp only: body_pipeline runAll_append [OF pre])
    then have b: "body p w = runAll ?rest (setOutput ''cache-hit'' (VBool False) w1)"
      by (simp add: c monad_defs)
    have "outputs (snd (runAll ?rest v)) = outputs v" for v
      by (rule outputs_runAll)
        (auto simp: outputs_setupMise outputs_testStage outputs_installStage outputs_setEnvVars
          outputs_setEnvVarsPreInstall liftE_def)
    then have "outputs (snd (body p w)) = outputs (setOutput ''cache-hit'' (VBool False) w1)"
      by (simp only: b)
    then show "outputs (snd (run p w)) ''cache-hit'' = Some (VBool False)"
      by (simp add: outputs_run setOutput_def emit_def)
  }
  {
    assume thr: "runAll [setToolVersions p, setMiseToml p] w = (Inl t, w2)"
    from split have b: "body p w = (Inl t, w2)"
      by (simp only: body_pipeline runAll_prefix_throw [OF thr])
    have "outputs (snd (runAll [setToolVersions p, setMiseToml p] w)) = outputs w"
      by (rule outputs_runAll) (auto simp: outputs_setToolVersions outputs_setMiseToml)
    then have "outputs w2 = outputs w"
      by (simp only: thr snd_conv)
    then show "outputs (snd (run p w)) = outputs w"
      by (simp add: outputs_run b)
  }
qed

text \<open>
  Claim C4 as stated fails: the \<^verbatim>\<open>cache\<close> input is false and the tool-versions file
  cannot be written; the run ends with the failure of the write and the output
  \<^verbatim>\<open>cache-hit\<close> has never been set.
\<close>

theorem cache_hit_unset_after_write_failure:
  "getBooleanInput broken_write_runner ''cache'' = Inr False \<and>
   fst (run broken_write_runner fresh) = Inr () \<and>
   failed (snd (run broken_write_runner fresh)) = Some ''EACCES: permission denied'' \<and>
   outputs (snd (run broken_write_runner fresh)) ''cache-hit'' = None"
proof -
  have 1: "getBooleanInput broken_write_runner ''cache'' = Inr False"
    by (simp add: broken_write_runner_def config_runner_def linux_runner_def)
  have t: "setToolVersions broken_write_runner fresh
      = (Inl (Error ''EACCES: permission denied''), snd (setToolVersions broken_write_runner fresh))"
    by (simp add: setToolVersions_def writeFile_def group_def Let_def
        broken_write_runner_def config_runner_def linux_runner_def input_defs)
  have "pipeline broken_write_runner = [] @ setToolVersions broken_write_runner #
      [setMiseToml broken_write_runner, cacheStage broken_write_runner,
       setupMise broken_write_runner (getInput broken_write_runner ''version''),
       liftE (setEnvVarsPreInstall broken_write_runner),
       bindE (testMise broken_write_runner) (\<lambda>_. liftE id), installStage broken_write_runner,
       setEnvVars broken_write_runner]"
    by (simp add: pipeline_def)
  from body_stage_throws [OF this _ t]
  have b: "body broken_write_runner fresh
      = (Inl (Error ''EACCES: permission denied''), snd (setToolVersions broken_write_runner fresh))"
    by (simp add: liftE_def)
  then have r: "run broken_write_runner fresh
      = (Inr (), setFailed ''EACCES: permission denied''
                   (snd (setToolVersions broken_write_runner fresh)))"
    by (simp add: run_def)
  have 2: "fst (run broken_write_runner fresh) = Inr ()"
    by (simp add: r)
  have 3: "failed (snd (run broken_write_runner fresh)) = Some ''EACCES: permission denied''"
    by (simp add: r setFailed_def emit_def)
  have "outputs (snd (run broken_write_runner fresh)) = outputs fresh"
    by (simp only: outputs_run b snd_conv outputs_setToolVersions)
  then have 4: "outputs (snd (run broken_write_runner fresh)) ''cache-hit'' = None"
    by (simp add: fresh_def)
  from 1 2 3 4 show ?thesis by blast
qed

theorem run_handler_witness:
  "run no_mkdir_runner fresh
     = (Inr (), setFailed ''EACCES: permission denied''
                  (snd (setupMise no_mkdir_runner [] (setOutput ''cache-hit'' (VBool False) fresh)))) \<and>
   failed (snd (run no_mkdir_runner fresh)) = Some ''EACCES: permission denied'' \<and>
   fst (run odd_throw_runner fresh) = Inl (NonError ''killed'') \<and>
   failed (snd (run odd_throw_runner fresh)) = None"
proof -
  let ?w1 = "setOutput ''cache-hit'' (VBool False) fresh"
  have pre: "runAll [setToolVersions r, setMiseToml r, cacheStage r] fresh = (Inr (), ?w1)"
    if "getInput r = (\<lambda>name. [])" "getBooleanInput r ''cache'' = Inr False" for r
    using that by (simp add: setToolVersions_def setMiseToml_def cacheStage_def monad_defs)
  have split: "pipeline r = [setToolVersions r, setMiseToml r, cacheStage r] @
      setupMise r [] # [liftE (setEnvVarsPreInstall r), bindE (testMise r) (\<lambda>_. liftE id),
        installStage r, setEnvVars r]"
    if "getInput r = (\<lambda>name. [])" for r
    using that by (simp add: pipeline_def)
  have t1: "setupMise no_mkdir_runner [] ?w1
      = (Inl (Error ''EACCES: permission denied''), snd (setupMise no_mkdir_runner [] ?w1))"
    by (simp add: setupMise_def monad_defs Let_def no_mkdir_runner_def linux_runner_def input_defs)
  have t2: "setupMise odd_throw_runner [] ?w1
      = (Inl (NonError ''killed''), snd (setupMise odd_throw_runner [] ?w1))"
    by (simp add: setupMise_def monad_defs Let_def exec_def odd_throw_runner_def linux_runner_def input_defs)
  have f2: "failed (snd (setupMise odd_throw_runner [] ?w1)) = None"
    by (simp add: setupMise_def monad_defs Let_def exec_def odd_throw_runner_def linux_runner_def input_defs
        prim_defs fresh_def)
  have i1: "getInput no_mkdir_runner = (\<lambda>name. [])" "getBooleanInput no_mkdir_runner ''cache'' = Inr False"
    and i2: "getInput odd_throw_runner = (\<lambda>name. [])" "getBooleanInput odd_throw_runner ''cache'' = Inr False"
    by (simp_all add: fun_eq_iff no_mkdir_runner_def odd_throw_runner_def linux_runner_def input_defs)
  from run_handler [OF split [OF i1(1)] pre [OF i1] t1]
    run_handler [OF split [OF i2(1)] pre [OF i2] t2] f2
  show ?thesis by (simp add: setFailed_def emit_def)
qed

theorem cache_disabled_witness:
  "filter isRestoreCache (added fresh (snd (run linux_runner fresh))) = [] \<and>
   outputs (snd (run linux_runner fresh)) ''cache-hit'' = Some (VBool False)"
proof -
  have off: "getBooleanInput linux_runner ''cache'' = Inr False"
    by (simp add: linux_runner_def input_defs)
  have pre: "runAll [setToolVersions linux_runner, setMiseToml linux_runner] fresh = (Inr (), fresh)"
    by (simp add: setToolVersions_def setMiseToml_def monad_defs linux_runner_def input_defs)
  from cache_disabled [OF off, of fresh fresh] pre show ?thesis by simp
qed

section \<open>The environment exporter\<close>

lemma js_split_not_Nil: "js_split d s \<noteq> []"
  by (induction s) (auto split: list.splits)

lemma js_split_append: "js_split d (a @ d # b) = js_split d a @ js_split d b"
  by (induction a) (auto split: list.splits simp: js_split_not_Nil)

lemma js_split_no_delim: "s \<in> set (js_split d v) \<Longrightarrow> d \<notin> set s"
  by (induction v arbitrary: s) (auto split: list.splits if_splits)

lemma js_split_single: "d \<notin> set s \<Longrightarrow> js_split d s = [s]"
  by (induction s) auto

lemma js_split_prepended:
  "\<forall>s\<in>set segs. d \<notin> set s \<Longrightarrow>
   js_split d (foldl (\<lambda>acc seg. seg @ d # acc) old segs) = rev segs @ js_split d old"
  by (induction segs arbitrary: old) (simp_all add: js_split_append js_split_single)

lemma current_PATH_addPath:
  "current_PATH (addPath p seg (info m w)) = seg @ path_delimiter p # current_PATH w"
  by (simp add: current_PATH_def prim_defs)

lemma current_PATH_addPathElements:
  "current_PATH (addPathElements p segs w)
     = foldl (\<lambda>acc seg. seg @ path_delimiter p # acc) (current_PATH w) segs"
  by (induction segs arbitrary: w) (simp_all add: current_PATH_addPath)

lemma env_PATH_addPathElements:
  "segs \<noteq> [] \<Longrightarrow> env (addPathElements p segs w) ''PATH'' = Some (current_PATH (addPathElements p segs w))"
proof (induction segs arbitrary: w)
  case Nil
  then show ?case by simp
next
  case (Cons a segs)
  show ?case
  proof (cases segs)
    case Nil
    then show ?thesis by (simp add: current_PATH_def prim_defs)
  next
    case (Cons b bs)
    with Cons.IH [of "addPath p a (info (''Adding '' @ a @ '' to PATH'') w)"] show ?thesis
      by simp
  qed
qed

lemma env_addPathElements_other:
  "k \<noteq> ''PATH'' \<Longrightarrow> env (addPathElements p segs w) k = env w k"
  by (induction segs arbitrary: w) (simp_all add: prim_defs)

lemma env_exportEntries_absent:
  "k \<notin> fst ` set kvs \<Longrightarrow> k \<noteq> ''PATH'' \<Longrightarrow> env (exportEntries p kvs w) k = env w k"
  by (induction kvs arbitrary: w) (auto simp: env_setEnv env_addPathElements_other)

lemma env_exportEntries_PATH_absent:
  "''PATH'' \<notin> fst ` set kvs \<Longrightarrow> env (exportEntries p kvs w) ''PATH'' = env w ''PATH''"
  by (induction kvs arbitrary: w) (auto simp: env_setEnv)

lemma env_exportEntries_invalid:
  "\<not> validName k \<Longrightarrow> env (exportEntries p kvs w) k = env w k"
proof (induction kvs arbitrary: w)
  case Nil
  then show ?case by simp
next
  case (Cons kv kvs)
  from Cons.prems have "k \<noteq> ''PATH''"
    using valid_preinstall_names(4) by auto
  with Cons show ?case
    by (cases kv) (auto simp: env_setEnv env_addPathElements_other)
qed

lemma env_exportEntries_present:
  "distinct (map fst kvs) \<Longrightarrow> (k, v) \<in> set kvs \<Longrightarrow> k \<noteq> ''PATH'' \<Longrightarrow> validName k \<Longrightarrow>
   env (exportEntries p kvs w) k = Some v"
proof (induction kvs arbitrary: w)
  case Nil
  then show ?case by simp
next
  case (Cons kv kvs)
  obtain k' v' where kv: "kv = (k', v')" by (cases kv)
  show ?case
  proof (cases "(k, v) = (k', v')")
    case True
    with Cons.prems kv have "k \<notin> fst ` set kvs" by auto
    with True kv Cons.prems(3,4) show ?thesis
      by (simp add: env_exportEntries_absent env_setEnv)
  next
    case False
    with Cons.prems kv have "(k, v) \<in> set kvs" "distinct (map fst kvs)" by auto
    with Cons.IH Cons.prems(3,4) kv show ?thesis by simp
  qed
qed

lemma env_exportEntries_PATH:
  "distinct (map fst kvs) \<Longrightarrow> (''PATH'', v) \<in> set kvs \<Longrightarrow>
   env (exportEntries p kvs w) ''PATH''
     = Some (foldl (\<lambda>acc seg. seg @ path_delimiter p # acc) (current_PATH w)
               (js_split (path_delimiter p) v))"
proof (induction kvs arbitrary: w)
  case Nil
  then show ?case by simp
next
  case (Cons kv kvs)
  obtain k' v' where kv: "kv = (k', v')" by (cases kv)
  show ?case
  proof (cases "k' = ''PATH''")
    case True
    with Cons.prems kv have v: "v' = v" and ab: "''PATH'' \<notin> fst ` set kvs"
      by (auto simp: image_iff)
    from True kv v ab show ?thesis
      by (simp add: env_exportEntries_PATH_absent env_PATH_addPathElements js_split_not_Nil
          current_PATH_addPathElements)
  next
    case False
    with Cons.prems kv have "(''PATH'', v) \<in> set kvs" "distinct (map fst kvs)" by auto
    from Cons.IH [OF this(2) this(1), of "setEnv k' v' w"] False kv show ?thesis
      by (simp add: current_PATH_def env_setEnv)
  qed
qed



text \<open>The calls of the two loops: one \<^verbatim>\<open>addPath\<close> for each segment, one
  \<^verbatim>\<open>exportVariable\<close> for each entry whose key is not \<^verbatim>\<open>PATH\<close>, in the order of the
  entries.\<close>

lemma calls_addPathElements:
  "\<exists>xs. trace (addPathElements p segs w) = trace w @ xs \<and>
        filter isAddPath xs = map AddPath segs \<and> filter isExportVariable xs = []"
proof (induction segs arbitrary: w)
  case Nil
  then show ?case by simp
next
  case (Cons seg segs)
  let ?w1 = "addPath p seg (info (''Adding '' @ seg @ '' to PATH'') w)"
  from Cons [of ?w1] obtain xs where xs: "trace (addPathElements p segs ?w1) = trace ?w1 @ xs"
    "filter isAddPath xs = map AddPath segs" "filter isExportVariable xs = []"
    by blast
  have "trace ?w1 = trace w @ [Info (''Adding '' @ seg @ '' to PATH''), AddPath seg]"
    by (simp add: prim_defs)
  with xs have "trace (addPathElements p (seg # segs) w)
      = trace w @ ([Info (''Adding '' @ seg @ '' to PATH''), AddPath seg] @ xs)"
    by simp
  moreover have "filter isAddPath ([Info (''Adding '' @ seg @ '' to PATH''), AddPath seg] @ xs)
      = map AddPath (seg # segs)"
    "filter isExportVariable ([Info (''Adding '' @ seg @ '' to PATH''), AddPath seg] @ xs) = []"
    using xs(2,3) by simp_all
  ultimately show ?case by blast
qed

lemma calls_exportEntries:
  "\<exists>xs. trace (exportEntries p kvs w) = trace w @ xs \<and>
        filter isExportVariable xs
          = map (\<lambda>(k, v). ExportVariable k v) (filter (\<lambda>(k, v). k \<noteq> ''PATH'') kvs) \<and>
        filter isAddPath xs
          = map AddPath (concat (map (\<lambda>(k, v). js_split (path_delimiter p) v)
                                   (filter (\<lambda>(k, v). k = ''PATH'') kvs)))"
proof (induction kvs arbitrary: w)
  case Nil
  then show ?case by simp
next
  case (Cons kv kvs)
  obtain k v where kv: "kv = (k, v)" by (cases kv)
  show ?case
  proof (cases "k = ''PATH''")
    case True
    let ?w1 = "addPathElements p (js_split (path_delimiter p) v) w"
    from calls_addPathElements [of p "js_split (path_delimiter p) v" w]
    obtain ys where ys: "trace ?w1 = trace w @ ys"
      "filter isAddPath ys = map AddPath (js_split (path_delimiter p) v)"
      "filter isExportVariable ys = []"
      by blast
    from Cons [of ?w1] obtain xs where xs: "trace (exportEntries p kvs ?w1) = trace ?w1 @ xs"
      "filter isExportVariable xs
          = map (\<lambda>(k, v). ExportVariable k v) (filter (\<lambda>(k, v). k \<noteq> ''PATH'') kvs)"
      "filter isAddPath xs
          = map AddPath (concat (map (\<lambda>(k, v). js_split (path_delimiter p) v)
                                   (filter (\<lambda>(k, v). k = ''PATH'') kvs)))"
      by blast
    have "trace (exportEntries p (kv # kvs) w) = trace w @ (ys @ xs)"
      using True kv xs(1) ys(1) by simp
    moreover have "filter isExportVariable (ys @ xs)
          = map (\<lambda>(k, v). ExportVariable k v) (filter (\<lambda>(k, v). k \<noteq> ''PATH'') (kv # kvs))"
      using True kv xs(2) ys(3) by simp
    moreover have "filter isAddPath (ys @ xs)
          = map AddPath (concat (map (\<lambda>(k, v). js_split (path_delimiter p) v)
                                   (filter (\<lambda>(k, v). k = ''PATH'') (kv # kvs))))"
      using True kv xs(3) ys(2) by simp
    ultimately show ?thesis by blast
  next
    case False
    let ?w1 = "setEnv k v w"
    have ys: "trace ?w1 = trace w @ [Info (''Setting '' @ k @ ''='' @ v), ExportVariable k v]"
      by (simp add: setEnv_def prim_defs)
    from Cons [of ?w1] obtain xs where xs: "trace (exportEntries p kvs ?w1) = trace ?w1 @ xs"
      "filter isExportVariable xs
          = map (\<lambda>(k, v). ExportVariable k v) (filter (\<lambda>(k, v). k \<noteq> ''PATH'') kvs)"
      "filter isAddPath xs
          = map AddPath (concat (map (\<lambda>(k, v). js_split (path_delimiter p) v)
                                   (filter (\<lambda>(k, v). k = ''PATH'') kvs)))"
      by blast
    have "trace (exportEntries p (kv # kvs) w)
        = trace w @ ([Info (''Setting '' @ k @ ''='' @ v), ExportVariable k v] @ xs)"
      using False kv xs(1) ys by simp
    moreover have "filter isExportVariable ([Info (''Setting '' @ k @ ''='' @ v), ExportVariable k v] @ xs)
          = map (\<lambda>(k, v). ExportVariable k v) (filter (\<lambda>(k, v). k \<noteq> ''PATH'') (kv # kvs))"
      using False kv xs(2) by simp
    moreover have "filter isAddPath ([Info (''Setting '' @ k @ ''='' @ v), ExportVariable k v] @ xs)
          = map AddPath (concat (map (\<lambda>(k, v). js_split (path_delimiter p) v)
                                   (filter (\<lambda>(k, v). k = ''PATH'') (kv # kvs))))"
      using False kv xs(3) by simp
    ultimately show ?thesis by blast
  qed
qed

lemma filter_key_absent:
  "key \<notin> fst ` set kvs \<Longrightarrow> filter (\<lambda>(k, v). k = key) kvs = []"
  by (induction kvs) auto

lemma filter_key_distinct:
  "distinct (map fst kvs) \<Longrightarrow> (key, v) \<in> set kvs \<Longrightarrow> filter (\<lambda>(k, v). k = key) kvs = [(key, v)]"
proof (induction kvs)
  case Nil
  then show ?case by simp
next
  case (Cons kv kvs)
  obtain k' v' where kv: "kv = (k', v')" by (cases kv)
  show ?case
  proof (cases "k' = key")
    case True
    with Cons.prems kv have "v' = v" "key \<notin> fst ` set kvs"
      by (auto simp: image_iff)
    with True kv show ?thesis
      by (simp add: filter_key_absent)
  next
    case False
    with Cons kv show ?thesis by auto
  qed
qed

lemma env_afterDump: "env (afterDump p w) = env w"
  by (simp add: afterDump_def prim_defs)

lemma trace_afterDump:
  "trace (afterDump p w) = trace w @
     [StartGroup ''Running mise env --json'',
      GetExecOutput ''mise'' [''env'', ''--json'']
        (if getInput p ''install_dir'' \<noteq> [] then getInput p ''install_dir'' else process_cwd p),
      EndGroup]"
  by (simp add: afterDump_def prim_defs)

lemma miseEnv_result:
  "miseEnv p w =
     (getExecOutput p ''mise'' [''env'', ''--json'']
        (if getInput p ''install_dir'' \<noteq> [] then getInput p ''install_dir'' else process_cwd p),
      afterDump p w)"
  by (simp add: miseEnv_def mise_def group_def Let_def afterDump_def)

lemma getExecOutput_Inr: "getExecOutput p tool args cwd = Inr out \<Longrightarrow> exitCode out = 0"
  by (auto simp: getExecOutput_def split: sum.splits if_splits)

lemma getExecOutput_exit:
  "childProcess p tool args cwd = Inr out \<Longrightarrow> exitCode out \<noteq> 0 \<Longrightarrow>
   getExecOutput p tool args cwd = Inl (exitError p tool (exitCode out))"
  by (simp add: getExecOutput_def)

text \<open>The branch of \<^verbatim>\<open>setEnvVars\<close> for an exit code other than zero is never taken.\<close>

lemma setEnvVars_else_dead:
  "setEnvVars p =
     bindE (miseEnv p) (\<lambda>envOutput.
     thenE (liftE (startGroup ''Setting env vars''))
       (bindE (ofResult (JSON_parse p (stdout envOutput))) (\<lambda>envVars.
        liftE (exportEntries p envVars))))"
proof
  fix w
  show "setEnvVars p w =
     bindE (miseEnv p) (\<lambda>envOutput.
     thenE (liftE (startGroup ''Setting env vars''))
       (bindE (ofResult (JSON_parse p (stdout envOutput))) (\<lambda>envVars.
        liftE (exportEntries p envVars)))) w"
    by (cases "getExecOutput p ''mise'' [''env'', ''--json'']
        (if getInput p ''install_dir'' \<noteq> [] then getInput p ''install_dir'' else process_cwd p)")
      (auto simp: setEnvVars_def miseEnv_result bindE_def dest: getExecOutput_Inr)
qed

lemma setEnvVars_ok:
  "getExecOutput p ''mise'' [''env'', ''--json'']
     (if getInput p ''install_dir'' \<noteq> [] then getInput p ''install_dir'' else process_cwd p) = Inr out \<Longrightarrow>
   JSON_parse p (stdout out) = Inr envVars \<Longrightarrow>
   setEnvVars p w = (Inr (), exportEntries p envVars (startGroup ''Setting env vars'' (afterDump p w)))"
  by (simp add: setEnvVars_else_dead miseEnv_result monad_defs)

lemma setEnvVars_dump_exit:
  "childProcess p ''mise'' [''env'', ''--json'']
     (if getInput p ''install_dir'' \<noteq> [] then getInput p ''install_dir'' else process_cwd p) = Inr out \<Longrightarrow>
   exitCode out \<noteq> 0 \<Longrightarrow>
   setEnvVars p w = (Inl (exitError p ''mise'' (exitCode out)), afterDump p w)"
  by (simp add: setEnvVars_else_dead miseEnv_result getExecOutput_exit monad_defs)

text \<open>The same default is what ends the run when the version check fails: \<^verbatim>\<open>run\<close>
  itself does not look at what \<^verbatim>\<open>testMise\<close> answers.\<close>

lemma version_check_exit:
  "childProcess p ''mise'' [''--version'']
     (if getInput p ''install_dir'' \<noteq> [] then getInput p ''install_dir'' else process_cwd p) = Inr out \<Longrightarrow>
   exitCode out \<noteq> 0 \<Longrightarrow>
   fst (testMise p w) = Inl (exitError p ''mise'' (exitCode out))"
  by (simp add: testMise_def mise_def group_def Let_def getExecOutput_exit)

text \<open>
  Claim C3, on the code. The subprocess of the environment dump ends with the exit code 1
  and the error output \<^verbatim>\<open>mise ERROR no config\<close>. The exporter throws, the environment is
  what it was, and the run ends with a failure message; but the message is the
  toolkit's, \<^verbatim>\<open>The process '/usr/bin/mise' failed with exit code 1\<close>, and the error
  output is not in it.
\<close>

theorem env_dump_exit_message:
  "childProcess failing_env_runner ''mise'' [''env'', ''--json''] ''/work''
     = Inr \<lparr>exitCode = 1, stdout = [], stderr = ''mise ERROR no config''\<rparr> \<and>
   fst (setEnvVars failing_env_runner fresh)
     = Inl (Error (''The process '' @ [CHR 39] @ ''/usr/bin/mise'' @ [CHR 39]
                   @ '' failed with exit code 1'')) \<and>
   env (snd (setEnvVars failing_env_runner fresh)) = env fresh \<and>
   fst (run failing_env_runner fresh) = Inr () \<and>
   failed (snd (run failing_env_runner fresh))
     = Some (''The process '' @ [CHR 39] @ ''/usr/bin/mise'' @ [CHR 39]
             @ '' failed with exit code 1'')"
proof -
  let ?out = "\<lparr>exitCode = 1, stdout = [], stderr = ''mise ERROR no config''\<rparr>"
  have f: "getInput failing_env_runner = (\<lambda>name. [])" "process_cwd failing_env_runner = ''/work''"
    "exitError failing_env_runner ''mise'' 1
       = Error (''The process '' @ [CHR 39] @ ''/usr/bin/mise'' @ [CHR 39] @ '' failed with exit code 1'')"
    by (simp_all add: fun_eq_iff failing_env_runner_def linux_runner_def input_defs exitError_def
        numberToString_1)
  have out: "childProcess failing_env_runner ''mise'' [''env'', ''--json'']
      (if getInput failing_env_runner ''install_dir'' \<noteq> []
       then getInput failing_env_runner ''install_dir''
       else process_cwd failing_env_runner) = Inr ?out"
    by (simp add: failing_env_runner_def linux_runner_def input_defs)
  have nz: "exitCode ?out \<noteq> 0" by simp
  note r = setEnvVars_dump_exit [OF out nz]
  have "fst (runAll (butlast (pipeline failing_env_runner)) fresh) = Inr ()"
    by (simp add: pipeline_def setToolVersions_def setMiseToml_def cacheStage_def setupMise_def
        installStage_def testMise_def mise_def group_def Let_def monad_defs exec_def
        getExecOutput_def failing_env_runner_def linux_runner_def input_defs)
  then have pre: "runAll (butlast (pipeline failing_env_runner)) fresh
      = (Inr (), snd (runAll (butlast (pipeline failing_env_runner)) fresh))"
    by (simp add: prod_eq_iff)
  have "pipeline failing_env_runner
      = butlast (pipeline failing_env_runner) @ setEnvVars failing_env_runner # []"
    by (simp add: pipeline_def)
  from body_stage_throws [OF this pre r]
  have run: "run failing_env_runner fresh
     = (Inr (), setFailed (''The process '' @ [CHR 39] @ ''/usr/bin/mise'' @ [CHR 39]
                           @ '' failed with exit code 1'')
                  (afterDump failing_env_runner
                     (snd (runAll (butlast (pipeline failing_env_runner)) fresh))))"
    using f(3) by (simp add: run_def)
  have 1: "childProcess failing_env_runner ''mise'' [''env'', ''--json''] ''/work'' = Inr ?out"
    using out by (simp add: f)
  have 2: "fst (setEnvVars failing_env_runner fresh)
     = Inl (Error (''The process '' @ [CHR 39] @ ''/usr/bin/mise'' @ [CHR 39]
                   @ '' failed with exit code 1''))"
    using f(3) by (simp add: r)
  have 3: "env (snd (setEnvVars failing_env_runner fresh)) = env fresh"
    by (simp add: r env_afterDump)
  have 4: "fst (run failing_env_runner fresh) = Inr ()"
    by (simp add: run)
  have 5: "failed (snd (run failing_env_runner fresh))
     = Some (''The process '' @ [CHR 39] @ ''/usr/bin/mise'' @ [CHR 39]
             @ '' failed with exit code 1'')"
    by (simp add: run setFailed_def emit_def)
  from 1 2 3 4 5 show ?thesis by blast
qed

lemma linux_dump:
  "getExecOutput linux_runner ''mise'' [''env'', ''--json'']
      (if getInput linux_runner ''install_dir'' \<noteq> [] then getInput linux_runner ''install_dir''
       else process_cwd linux_runner)
     = Inr \<lparr>exitCode = 0, stdout = ''{\"FOO\":\"bar\",\"PATH\":\"/a:/b\"}'', stderr = []\<rparr>"
  "JSON_parse linux_runner ''{\"FOO\":\"bar\",\"PATH\":\"/a:/b\"}''
     = Inr [(''FOO'', ''bar''), (''PATH'', ''/a:/b'')]"
  "path_delimiter linux_runner = CHR '':''"
  by (simp_all add: linux_runner_def input_defs getExecOutput_def)

text \<open>
  Claim C1, as the code has it. When the dump has run and its output parses to an object
  (its keys distinct, as the keys of an object are), the exporter returns and:
  \<^verbatim>\<open>core.exportVariable\<close> is called once for every entry whose key is not \<^verbatim>\<open>PATH\<close>, in
  the order of the entries; every such key that is a name the process can hold (not
  empty, no \<^verbatim>\<open>=\<close> in it) then has the value of the object, whatever it had before;
  every variable that is not a key of the object, or whose name the process cannot hold,
  has the value it had, \<^verbatim>\<open>PATH\<close> too; and for the key \<^verbatim>\<open>PATH\<close>, \<^verbatim>\<open>core.addPath\<close> is
  called once for each segment of the value, split at the delimiter, in their order,
  which puts each in front of \<^verbatim>\<open>PATH\<close> in turn, so that the entries of \<^verbatim>\<open>PATH\<close> are
  the segments in reverse order followed by all the entries that were there.
\<close>

theorem setEnvVars_exports:
  assumes out: "getExecOutput p ''mise'' [''env'', ''--json'']
      (if getInput p ''install_dir'' \<noteq> [] then getInput p ''install_dir'' else process_cwd p) = Inr out"
    and js: "JSON_parse p (stdout out) = Inr envVars"
    and d: "distinct (map fst envVars)"
  shows "fst (setEnvVars p w) = Inr () \<and>
    filter isExportVariable (added w (snd (setEnvVars p w)))
      = map (\<lambda>(k, v). ExportVariable k v) (filter (\<lambda>(k, v). k \<noteq> ''PATH'') envVars) \<and>
    (\<forall>k v. (k, v) \<in> set envVars \<and> k \<noteq> ''PATH'' \<and> validName k \<longrightarrow>
       env (snd (setEnvVars p w)) k = Some v) \<and>
    (\<forall>k. k \<notin> fst ` set envVars \<or> \<not> validName k \<longrightarrow> env (snd (setEnvVars p w)) k = env w k) \<and>
    (''PATH'' \<notin> fst ` set envVars \<longrightarrow> filter isAddPath (added w (snd (setEnvVars p w))) = []) \<and>
    (\<forall>v. (''PATH'', v) \<in> set envVars \<longrightarrow>
       filter isAddPath (added w (snd (setEnvVars p w)))
         = map AddPath (js_split (path_delimiter p) v) \<and>
       env (snd (setEnvVars p w)) ''PATH''
         = Some (foldl (\<lambda>acc seg. seg @ path_delimiter p # acc) (current_PATH w)
                   (js_split (path_delimiter p) v)) \<and>
       js_split (path_delimiter p) (current_PATH (snd (setEnvVars p w)))
         = rev (js_split (path_delimiter p) v) @ js_split (path_delimiter p) (current_PATH w))"
proof -
  let ?w0 = "startGroup ''Setting env vars'' (afterDump p w)"
  note r = setEnvVars_ok [OF out js, of w]
  have e: "env ?w0 = env w"
    by (simp add: env_startGroup env_afterDump)
  have t0: "trace ?w0 = trace w @
     [StartGroup ''Running mise env --json'',
      GetExecOutput ''mise'' [''env'', ''--json'']
        (if getInput p ''install_dir'' \<noteq> [] then getInput p ''install_dir'' else process_cwd p),
      EndGroup, StartGroup ''Setting env vars'']"
    by (simp add: startGroup_def emit_def trace_afterDump)
  from calls_exportEntries [of p envVars ?w0]
  obtain xs where xs: "trace (exportEntries p envVars ?w0) = trace ?w0 @ xs"
    "filter isExportVariable xs
       = map (\<lambda>(k, v). ExportVariable k v) (filter (\<lambda>(k, v). k \<noteq> ''PATH'') envVars)"
    "filter isAddPath xs
       = map AddPath (concat (map (\<lambda>(k, v). js_split (path_delimiter p) v)
                                (filter (\<lambda>(k, v). k = ''PATH'') envVars)))"
    by blast
  have ad: "added w (snd (setEnvVars p w)) =
     [StartGroup ''Running mise env --json'',
      GetExecOutput ''mise'' [''env'', ''--json'']
        (if getInput p ''install_dir'' \<noteq> [] then getInput p ''install_dir'' else process_cwd p),
      EndGroup, StartGroup ''Setting env vars''] @ xs"
    by (rule added_append) (simp add: r xs(1) t0)
  have 1: "fst (setEnvVars p w) = Inr ()"
    by (simp add: r)
  have 2: "filter isExportVariable (added w (snd (setEnvVars p w)))
      = map (\<lambda>(k, v). ExportVariable k v) (filter (\<lambda>(k, v). k \<noteq> ''PATH'') envVars)"
    by (simp add: ad xs(2))
  have ap: "filter isAddPath (added w (snd (setEnvVars p w)))
      = map AddPath (concat (map (\<lambda>(k, v). js_split (path_delimiter p) v)
                               (filter (\<lambda>(k, v). k = ''PATH'') envVars)))"
    by (simp add: ad xs(3))
  have 3: "env (snd (setEnvVars p w)) k = Some v"
    if "(k, v) \<in> set envVars" "k \<noteq> ''PATH''" "validName k" for k v
    using that by (simp add: r env_exportEntries_present [OF d])
  have 4: "env (snd (setEnvVars p w)) k = env w k" if "k \<notin> fst ` set envVars \<or> \<not> validName k" for k
  proof (cases "validName k")
    case False
    then show ?thesis
      by (simp add: r env_exportEntries_invalid e)
  next
    case True
    with that have ab: "k \<notin> fst ` set envVars" by simp
    show ?thesis
    proof (cases "k = ''PATH''")
      case True
      with ab show ?thesis
        by (simp add: r env_exportEntries_PATH_absent e)
    next
      case False
      with ab show ?thesis
        by (simp add: r env_exportEntries_absent e)
    qed
  qed
  have 5: "filter isAddPath (added w (snd (setEnvVars p w))) = []" if "''PATH'' \<notin> fst ` set envVars"
    using that by (simp add: ap filter_key_absent)
  have 6: "filter isAddPath (added w (snd (setEnvVars p w)))
         = map AddPath (js_split (path_delimiter p) v)" if "(''PATH'', v) \<in> set envVars" for v
    using that by (simp add: ap filter_key_distinct [OF d])
  have 7: "env (snd (setEnvVars p w)) ''PATH''
         = Some (foldl (\<lambda>acc seg. seg @ path_delimiter p # acc) (current_PATH w)
                   (js_split (path_delimiter p) v))" if "(''PATH'', v) \<in> set envVars" for v
    using that by (simp add: r env_exportEntries_PATH [OF d] current_PATH_def e)
  have 8: "js_split (path_delimiter p) (current_PATH (snd (setEnvVars p w)))
         = rev (js_split (path_delimiter p) v) @ js_split (path_delimiter p) (current_PATH w)"
    if "(''PATH'', v) \<in> set envVars" for v
  proof -
    have "current_PATH (snd (setEnvVars p w))
        = foldl (\<lambda>acc seg. seg @ path_delimiter p # acc) (current_PATH w)
                   (js_split (path_delimiter p) v)"
      using 7 [OF that] by (simp add: current_PATH_def)
    then show ?thesis
      by (simp add: js_split_prepended js_split_no_delim)
  qed
  from 1 2 3 4 5 6 7 8 show ?thesis by blast
qed

theorem setEnvVars_exports_witness:
  "env (snd (setEnvVars linux_runner (fresh\<lparr>env := [''PATH'' \<mapsto> ''/usr/bin'', ''FOO'' \<mapsto> ''old'']\<rparr>)))
     ''FOO'' = Some ''bar'' \<and>
   env (snd (setEnvVars linux_runner (fresh\<lparr>env := [''PATH'' \<mapsto> ''/usr/bin'', ''FOO'' \<mapsto> ''old'']\<rparr>)))
     ''PATH'' = Some ''/b:/a:/usr/bin'' \<and>
   js_split CHR '':''
     (current_PATH (snd (setEnvVars linux_runner
        (fresh\<lparr>env := [''PATH'' \<mapsto> ''/usr/bin'', ''FOO'' \<mapsto> ''old'']\<rparr>))))
     = [''/b'', ''/a'', ''/usr/bin''] \<and>
   filter isAddPath
     (added (fresh\<lparr>env := [''PATH'' \<mapsto> ''/usr/bin'', ''FOO'' \<mapsto> ''old'']\<rparr>)
        (snd (setEnvVars linux_runner
           (fresh\<lparr>env := [''PATH'' \<mapsto> ''/usr/bin'', ''FOO'' \<mapsto> ''old'']\<rparr>))))
     = [AddPath ''/a'', AddPath ''/b''] \<and>
   filter isExportVariable
     (added (fresh\<lparr>env := [''PATH'' \<mapsto> ''/usr/bin'', ''FOO'' \<mapsto> ''old'']\<rparr>)
        (snd (setEnvVars linux_runner
           (fresh\<lparr>env := [''PATH'' \<mapsto> ''/usr/bin'', ''FOO'' \<mapsto> ''old'']\<rparr>))))
     = [ExportVariable ''FOO'' ''bar'']"
  using setEnvVars_exports [OF linux_dump(1), of "[(''FOO'', ''bar''), (''PATH'', ''/a:/b'')]"
      "fresh\<lparr>env := [''PATH'' \<mapsto> ''/usr/bin'', ''FOO'' \<mapsto> ''old'']\<rparr>"]
  by (simp add: linux_dump(2,3) current_PATH_def fresh_def validName_def)

text \<open>
  Claim C1 as stated fails: with \<^verbatim>\<open>PATH=/usr/bin\<close> and the dump
  \<^verbatim>\<open>{"FOO":"bar","PATH":"/a:/b"}\<close> the entries of \<^verbatim>\<open>PATH\<close> after the export are
  \<^verbatim>\<open>/b\<close>, \<^verbatim>\<open>/a\<close>, \<^verbatim>\<open>/usr/bin\<close>; appending the segments would give
  \<^verbatim>\<open>/usr/bin\<close>, \<^verbatim>\<open>/a\<close>, \<^verbatim>\<open>/b\<close>.
\<close>

theorem path_segments_go_in_front:
  "js_split CHR '':''
     (current_PATH (snd (setEnvVars linux_runner (fresh\<lparr>env := [''PATH'' \<mapsto> ''/usr/bin'']\<rparr>))))
     = [''/b'', ''/a'', ''/usr/bin''] \<and>
   js_split CHR '':'' (current_PATH (fresh\<lparr>env := [''PATH'' \<mapsto> ''/usr/bin'']\<rparr>))
     @ js_split CHR '':'' ''/a:/b'' = [''/usr/bin'', ''/a'', ''/b'']"
proof -
  have "setEnvVars linux_runner (fresh\<lparr>env := [''PATH'' \<mapsto> ''/usr/bin'']\<rparr>)
      = (Inr (), exportEntries linux_runner [(''FOO'', ''bar''), (''PATH'', ''/a:/b'')]
                   (startGroup ''Setting env vars''
                     (afterDump linux_runner (fresh\<lparr>env := [''PATH'' \<mapsto> ''/usr/bin'']\<rparr>))))"
    by (rule setEnvVars_ok [OF linux_dump(1)]) (simp add: linux_dump(2))
  then show ?thesis
    by (simp add: linux_dump(3) current_PATH_def afterDump_def setEnv_def prim_defs fresh_def)
qed

end
